theory Spec2Isabelle
  imports Complex_Main "HOL-Library.Sublist"
begin

section \<open>The DuckDB manager of src/duckdb-manager.ts\<close>

text \<open>
  The manager is a class with nine private fields and a handful of \<open>async\<close> methods.
  JavaScript runs one piece of code at a time: an \<open>async\<close> function runs synchronously up
  to its next \<open>await\<close>, and only there can other callers run. The model therefore has
  \<^item> a record for the fields of the class;
  \<^item> a task for every activation of an \<open>async\<close> method, whose state is either the
    \<open>await\<close> it is suspended at (with the locals it still needs), or its settled promise;
  \<^item> one transition per code segment between two \<open>await\<close>s;
  \<^item> an interleaving of these transitions chosen by a schedule: any caller may call any
    public method at any time, any suspended task whose awaited promise has settled may
    continue, and the environment (module loader, network, engine) settles what it was
    asked at any time, with success or failure.
  The scheduler is more liberal than the microtask queue of a JavaScript engine (it does not
  fix the order of two continuations that are both ready), so every run of the program is a
  run of the model.
\<close>

subsection \<open>Values, results and configuration (src/types.ts)\<close>

datatype jsval = JUndefined | JNull | JBool bool | JNum int | JStr string

text \<open>
  The engine's columnar result, as far as \<open>query\<close> reads it: \<open>schema.fields[k].name\<close>,
  \<open>numRows\<close>, \<open>numCols\<close>, \<open>getChildAt(j)\<close> and \<open>col.get(i)\<close>. A column that does not exist
  is \<open>null\<close>; a cell that does not exist is \<open>undefined\<close>.
\<close>

record table =
  schema_fields :: "string list"
  numRows :: nat
  numCols :: nat
  children :: "jsval list option list"

record QueryResult =
  columns :: "string list"
  rows :: "jsval list list"
  rowCount :: nat
  executionTime :: real

text \<open>
  The argument of \<open>configure\<close> is a \<open>Partial<DuckDBManagerConfig>\<close>: each key is absent
  (\<open>None\<close>), or present with a string or with \<open>undefined\<close> (the callers in src/embedded.ts
  and src/index.ts pass optional options). The spread of line 42 copies every key that is
  present, so a field of the configuration holds a string or \<open>undefined\<close> (\<open>None\<close>).
\<close>

record DuckDBManagerConfig =
  version :: "string option"
  cdn :: "string option"

record PartialConfig =
  version_opt :: "string option option"
  cdn_opt :: "string option option"

record wasm_bundle =
  mainModule :: string
  mainWorker :: string

record response =
  ok :: bool
  status :: nat
  statusText :: string

subsection \<open>The fields of the class\<close>

text \<open>
  \<open>db\<close>, \<open>connection\<close> and \<open>duckdbModule\<close> are opaque handles (\<open>null\<close> is \<open>None\<close>); a
  promise is the identifier of the task that settles it.
\<close>

record DuckDBManager =
  db :: "nat option"
  connection :: "nat option"
  initPromise :: "nat option"
  config :: DuckDBManagerConfig
  registeredFiles :: "string set"
  duckdbModule :: "nat option"
  initQueriesExecuted :: bool
  initQueriesPromise :: "nat option"
  initQueries :: "string list"

definition default_config :: DuckDBManagerConfig where
  "default_config =
     \<lparr>version = Some ''1.31.1-dev1.0'',
      cdn = Some ''https://cdn.jsdelivr.net/npm/@duckdb/duckdb-wasm''\<rparr>"

text \<open>The field initialisers and the constructor.\<close>

definition new_manager :: DuckDBManager where
  "new_manager =
     \<lparr>db = None, connection = None, initPromise = None, config = default_config,
      registeredFiles = {}, duckdbModule = None, initQueriesExecuted = False,
      initQueriesPromise = None, initQueries = []\<rparr>"

subsection \<open>Tasks, the environment and the world\<close>

text \<open>Where a statement was submitted from: line 201 (setup loop) or line 258 (user query).\<close>

datatype origin = Setup | User

text \<open>Every call the manager makes to a collaborator, and the engine's answers to statements.\<close>

datatype event =
    EvImport string
  | EvSelectBundle nat
  | EvFetch string
  | EvBlob
  | EvCreateObjectURL
  | EvNewWorker
  | EvNewDB nat nat
  | EvInstantiate nat wasm_bundle
  | EvConnect nat
  | EvRevokeObjectURL
  | EvConnQuery nat origin string
  | EvQueryResult origin string bool
  | EvRegisterFileURL nat string string
  | EvConnClose nat
  | EvTerminate nat

datatype level = Log | Warn | Error

text \<open>
  The \<open>await\<close> a task is suspended at. \<open>DI\<close>: doInitialize (with loadDuckDBModule, which it
  awaits first); \<open>SR\<close>: the anonymous async function of executeInitQueries; \<open>Q\<close>: query;
  \<open>R\<close>: registerFile; \<open>C\<close>: close.
\<close>

datatype pc =
    DI_GotModule nat
  | DI_AwaitImport
  | DI_AwaitCdnImport string
  | DI_AwaitSelectBundle nat
  | DI_AwaitFetch nat wasm_bundle
  | DI_AwaitBlob nat wasm_bundle
  | DI_AwaitInstantiate
  | DI_AwaitConnect
  | SR_Await nat string
  | Q_AwaitInit "nat option" string
  | Q_AwaitSetup "nat option" string
  | Q_AwaitResult real string
  | R_AwaitInit "nat option" string string
  | R_AwaitRegister string string
  | C_AwaitConnClose
  | C_AwaitTerminate

datatype result = RVoid | RQuery QueryResult

datatype tstate = Running pc | Fulfilled result | Rejected string

datatype payload =
    PUnit
  | PModule nat
  | PBundle wasm_bundle
  | PResponse response
  | PConn nat
  | PTable table

text \<open>
  What the environment answers: a value, or a rejection. Every \<open>catch\<close> of the manager reads
  \<open>error instanceof Error ? error.message : String(error)\<close> from what was thrown, and line
  164 also whether it is an \<open>Error\<close>: \<open>Fail e\<close> is a rejection with an \<open>Error\<close> whose message
  is \<open>e\<close>, \<open>FailValue s\<close> a rejection with a value that is not an \<open>Error\<close> and reads \<open>s\<close> as
  a string. The manager itself only throws \<open>Error\<close>s, and the reason of a rejected promise is
  kept as that text.
\<close>

datatype outcome = Ok payload | Fail string | FailValue string

record world =
  mgr :: DuckDBManager
  window :: "nat option option"
  tasks :: "nat \<Rightarrow> tstate option"
  next_id :: nat
  now :: real
  trace :: "event list"
  console :: "(level \<times> string) list"

text \<open>
  \<open>window\<close> is \<open>None\<close> where \<open>typeof window\<close> is \<open>'undefined'\<close>, and otherwise holds
  \<open>window.duckdb\<close>.
\<close>

definition init_world :: "nat option option \<Rightarrow> world" where
  "init_world win =
     \<lparr>mgr = new_manager, window = win, tasks = (\<lambda>_. None), next_id = 0, now = 0,
      trace = [], console = []\<rparr>"


subsection \<open>Strings\<close>

text \<open>
  \<open>String.prototype.includes\<close>; a number in a template literal (decimal); a string that
  may be \<open>undefined\<close> in a template literal.
\<close>

fun starts_with :: "string \<Rightarrow> string \<Rightarrow> bool" where
  "starts_with s [] = True"
| "starts_with [] (c # cs) = False"
| "starts_with (d # ds) (c # cs) = (d = c \<and> starts_with ds cs)"

fun includes_str :: "string \<Rightarrow> string \<Rightarrow> bool" where
  "includes_str [] sub = (sub = [])"
| "includes_str (d # ds) sub = (starts_with (d # ds) sub \<or> includes_str ds sub)"

definition digit_char :: "nat \<Rightarrow> char" where
  "digit_char d = char_of (48 + d)"

fun show_nat :: "nat \<Rightarrow> string" where
  "show_nat n = (if n < 10 then [digit_char n] else show_nat (n div 10) @ [digit_char (n mod 10)])"

declare show_nat.simps [simp del]

definition in_template :: "string option \<Rightarrow> string" where
  "in_template v = (case v of None \<Rightarrow> ''undefined'' | Some s \<Rightarrow> s)"

subsection \<open>Small state updates\<close>

definition set_task :: "nat \<Rightarrow> tstate \<Rightarrow> world \<Rightarrow> world" where
  "set_task t st w = w\<lparr>tasks := (tasks w)(t \<mapsto> st)\<rparr>"

definition emit :: "event \<Rightarrow> world \<Rightarrow> world" where
  "emit e w = w\<lparr>trace := trace w @ [e]\<rparr>"

definition say :: "level \<Rightarrow> string \<Rightarrow> world \<Rightarrow> world" where
  "say l s w = w\<lparr>console := console w @ [(l, s)]\<rparr>"

definition upd :: "(DuckDBManager \<Rightarrow> DuckDBManager) \<Rightarrow> world \<Rightarrow> world" where
  "upd f w = w\<lparr>mgr := f (mgr w)\<rparr>"

text \<open>A new task: its identifier is also the identifier of the promise it returns.\<close>

definition fresh :: "world \<Rightarrow> nat \<times> world" where
  "fresh w = (next_id w, w\<lparr>next_id := Suc (next_id w)\<rparr>)"

text \<open>What a task that awaits promise \<open>p\<close> sees; awaiting no promise is ready at once.\<close>

datatype settled = Pending | Resolved | Thrown string

definition awaited :: "world \<Rightarrow> nat option \<Rightarrow> settled" where
  "awaited w p =
     (case p of
        None \<Rightarrow> Resolved
      | Some t \<Rightarrow>
          (case tasks w t of
             Some (Fulfilled r) \<Rightarrow> Resolved
           | Some (Rejected e) \<Rightarrow> Thrown e
           | _ \<Rightarrow> Pending))"

text \<open>The message of the TypeError that reading a property of \<open>null\<close> throws.\<close>

definition null_property :: "string \<Rightarrow> string" where
  "null_property name =
     ''Cannot read properties of null (reading '' @ [CHR 0x27] @ name @ [CHR 0x27] @ '')''"

subsection \<open>configure, configureInitQueries, isInitialized (lines 37-55, 311-313)\<close>

definition merge_config :: "DuckDBManagerConfig \<Rightarrow> PartialConfig \<Rightarrow> DuckDBManagerConfig" where
  "merge_config c p =
     \<lparr>version = (case version_opt p of None \<Rightarrow> version c | Some v \<Rightarrow> v),
      cdn = (case cdn_opt p of None \<Rightarrow> cdn c | Some u \<Rightarrow> u)\<rparr>"

definition configure :: "PartialConfig \<Rightarrow> world \<Rightarrow> world" where
  "configure p w =
     (if db (mgr w) \<noteq> None
      then say Warn ''DuckDB already initialized, configuration will not take effect'' w
      else upd (\<lambda>m. m\<lparr>config := merge_config (config m) p\<rparr>) w)"

definition configureInitQueries :: "string list \<Rightarrow> world \<Rightarrow> world" where
  "configureInitQueries queries w =
     (if initQueriesExecuted (mgr w)
      then say Warn ''Init queries already executed, configuration will not take effect'' w
      else upd (\<lambda>m. m\<lparr>initQueries := queries\<rparr>) w)"

definition isInitialized :: "world \<Rightarrow> bool" where
  "isInitialized w = (db (mgr w) \<noteq> None)"

subsection \<open>loadDuckDBModule and doInitialize (lines 74-170)\<close>

definition package_name :: string where
  "package_name = ''@duckdb/duckdb-wasm''"

definition cdnUrl :: "string option \<Rightarrow> string" where
  "cdnUrl v = ''https://cdn.jsdelivr.net/npm/@duckdb/duckdb-wasm@'' @ in_template v @ ''/+esm''"

definition load_failed :: "string \<Rightarrow> string \<Rightarrow> string" where
  "load_failed importError cdnError =
     ''Failed to load DuckDB. Tried:'' @ [CHR 0x0A]
       @ ''1. Pre-loaded global: Not found'' @ [CHR 0x0A]
       @ ''2. Dynamic import: '' @ importError @ [CHR 0x0A]
       @ ''3. CDN import: '' @ cdnError"

text \<open>
  The \<open>catch\<close> of doInitialize (lines 160-169), for an error that is an \<open>Error\<close> or not and
  reads \<open>err\<close>.
\<close>

definition di_catch :: "nat \<Rightarrow> bool \<Rightarrow> string \<Rightarrow> world \<Rightarrow> world" where
  "di_catch t isError err w =
     set_task t
       (Rejected
         (if isError \<and> includes_str err ''CORS''
          then ''Failed to initialize DuckDB: CORS policy blocked worker loading. This may be a browser security restriction in development mode.''
          else ''Failed to initialize DuckDB: '' @ err))
       (say Error (''DuckDB initialization error: '' @ err)
         (upd (\<lambda>m. m\<lparr>initPromise := None\<rparr>) w))"

text \<open>
  A call of loadDuckDBModule from task \<open>t\<close> (lines 74-89), which runs up to the \<open>await\<close> of
  the dynamic import, or returns the memoized or the global module at once; the caller then
  awaits what it returns.
\<close>

definition loadDuckDBModule :: "nat \<Rightarrow> world \<Rightarrow> world" where
  "loadDuckDBModule t w =
     (case duckdbModule (mgr w) of
        Some m \<Rightarrow> set_task t (Running (DI_GotModule m)) w
      | None \<Rightarrow>
          (case window w of
             Some (Some g) \<Rightarrow>
               set_task t (Running (DI_GotModule g))
                 (upd (\<lambda>m. m\<lparr>duckdbModule := Some g\<rparr>)
                   (say Log ''Using pre-loaded DuckDB from window.duckdb'' w))
           | _ \<Rightarrow>
               set_task t (Running DI_AwaitImport)
                 (emit (EvImport package_name)
                   (say Log ''Attempting to load DuckDB via dynamic import...'' w))))"

text \<open>
  A call of doInitialize: a new task, which runs up to its first \<open>await\<close>, that of
  loadDuckDBModule (line 125).
\<close>

definition doInitialize :: "world \<Rightarrow> nat \<times> world" where
  "doInitialize w = (case fresh w of (t, w0) \<Rightarrow> (t, loadDuckDBModule t w0))"

text \<open>initialize (lines 60-69): the promise the caller then awaits, if any.\<close>

definition initialize :: "world \<Rightarrow> nat option \<times> world" where
  "initialize w =
     (if db (mgr w) \<noteq> None then (None, w)
      else
        (case initPromise (mgr w) of
           Some p \<Rightarrow> (Some p, w)
         | None \<Rightarrow>
             (case doInitialize w of (t, w1) \<Rightarrow>
                (Some t, upd (\<lambda>m. m\<lparr>initPromise := Some t\<rparr>) w1))))"

text \<open>
  The continuations of doInitialize, one for each \<open>await\<close>; those of the two imports are
  the rest of loadDuckDBModule (lines 90-118), whose result or error doInitialize receives.
  An error that is only passed on (from loadDuckDBModule to the \<open>catch\<close> of doInitialize)
  is handled in the transition that raises it.
\<close>

definition di_got_module :: "nat \<Rightarrow> nat \<Rightarrow> world \<Rightarrow> world" where
  "di_got_module t m w = set_task t (Running (DI_AwaitSelectBundle m)) (emit (EvSelectBundle m) w)"

definition di_import :: "nat \<Rightarrow> outcome \<Rightarrow> world \<Rightarrow> world" where
  "di_import t oc w =
     (case oc of
        Ok (PModule m) \<Rightarrow>
          set_task t (Running (DI_GotModule m))
            (say Log ''DuckDB module loaded via dynamic import''
              (upd (\<lambda>x. x\<lparr>duckdbModule := Some m\<rparr>) w))
      | Fail importError \<Rightarrow>
          set_task t (Running (DI_AwaitCdnImport importError))
            (emit (EvImport (cdnUrl (version (config (mgr w)))))
              (say Log (''Loading DuckDB from: '' @ cdnUrl (version (config (mgr w))))
                (say Log ''Dynamic import failed, loading from jsDelivr CDN...'' w)))
      | FailValue importError \<Rightarrow>
          set_task t (Running (DI_AwaitCdnImport importError))
            (emit (EvImport (cdnUrl (version (config (mgr w)))))
              (say Log (''Loading DuckDB from: '' @ cdnUrl (version (config (mgr w))))
                (say Log ''Dynamic import failed, loading from jsDelivr CDN...'' w)))
      | _ \<Rightarrow> w)"

definition di_cdn_import :: "nat \<Rightarrow> string \<Rightarrow> outcome \<Rightarrow> world \<Rightarrow> world" where
  "di_cdn_import t importError oc w =
     (case oc of
        Ok (PModule m) \<Rightarrow>
          set_task t (Running (DI_GotModule m))
            (say Log ''DuckDB module loaded from jsDelivr CDN''
              ((upd (\<lambda>x. x\<lparr>duckdbModule := Some m\<rparr>) w)
                 \<lparr>window := (case window w of None \<Rightarrow> None | Some g \<Rightarrow> Some (Some m))\<rparr>))
      | Fail cdnError \<Rightarrow> di_catch t True (load_failed importError cdnError) w
      | FailValue cdnError \<Rightarrow> di_catch t True (load_failed importError cdnError) w
      | _ \<Rightarrow> w)"

definition di_select_bundle :: "nat \<Rightarrow> nat \<Rightarrow> outcome \<Rightarrow> world \<Rightarrow> world" where
  "di_select_bundle t m oc w =
     (case oc of
        Ok (PBundle b) \<Rightarrow>
          set_task t (Running (DI_AwaitFetch m b))
            (emit (EvFetch (mainWorker b))
              (say Log (''Loading DuckDB WASM worker from: '' @ mainWorker b) w))
      | Fail e \<Rightarrow> di_catch t True e w
      | FailValue e \<Rightarrow> di_catch t False e w
      | _ \<Rightarrow> w)"

definition di_fetch :: "nat \<Rightarrow> nat \<Rightarrow> wasm_bundle \<Rightarrow> outcome \<Rightarrow> world \<Rightarrow> world" where
  "di_fetch t m b oc w =
     (case oc of
        Ok (PResponse r) \<Rightarrow>
          (if \<not> ok r
           then di_catch t True
                  (''Failed to fetch worker: '' @ show_nat (status r) @ '' '' @ statusText r) w
           else set_task t (Running (DI_AwaitBlob m b)) (emit EvBlob w))
      | Fail e \<Rightarrow> di_catch t True e w
      | FailValue e \<Rightarrow> di_catch t False e w
      | _ \<Rightarrow> w)"

text \<open>
  Lines 143-152: the engine instance is stored in \<open>this.db\<close> before it is instantiated.
  Its handle is the identifier of the task that built it.
\<close>

definition di_blob :: "nat \<Rightarrow> nat \<Rightarrow> wasm_bundle \<Rightarrow> outcome \<Rightarrow> world \<Rightarrow> world" where
  "di_blob t m b oc w =
     (case oc of
        Ok PUnit \<Rightarrow>
          set_task t (Running DI_AwaitInstantiate)
            (emit (EvInstantiate t b)
              (upd (\<lambda>x. x\<lparr>db := Some t\<rparr>)
                (emit (EvNewDB t m)
                  (say Log ''Initializing DuckDB WASM...''
                    (emit EvNewWorker (emit EvCreateObjectURL w))))))
      | Fail e \<Rightarrow> di_catch t True e w
      | FailValue e \<Rightarrow> di_catch t False e w
      | _ \<Rightarrow> w)"

text \<open>Line 155 reads \<open>this.db\<close> again: after a close in between it is \<open>null\<close>.\<close>

definition di_instantiate :: "nat \<Rightarrow> outcome \<Rightarrow> world \<Rightarrow> world" where
  "di_instantiate t oc w =
     (case oc of
        Ok PUnit \<Rightarrow>
          (case db (mgr w) of
             None \<Rightarrow> di_catch t True (null_property ''connect'') w
           | Some d \<Rightarrow> set_task t (Running DI_AwaitConnect) (emit (EvConnect d) w))
      | Fail e \<Rightarrow> di_catch t True e w
      | FailValue e \<Rightarrow> di_catch t False e w
      | _ \<Rightarrow> w)"

definition di_connect :: "nat \<Rightarrow> outcome \<Rightarrow> world \<Rightarrow> world" where
  "di_connect t oc w =
     (case oc of
        Ok (PConn c) \<Rightarrow>
          set_task t (Fulfilled RVoid)
            (emit EvRevokeObjectURL
              (say Log ''DuckDB WASM initialized successfully''
                (upd (\<lambda>x. x\<lparr>connection := Some c\<rparr>) w)))
      | Fail e \<Rightarrow> di_catch t True e w
      | FailValue e \<Rightarrow> di_catch t False e w
      | _ \<Rightarrow> w)"


subsection \<open>executeInitQueries (lines 175-216)\<close>

text \<open>The \<open>catch\<close> of the anonymous async function (lines 206-212).\<close>

definition setup_catch :: "nat \<Rightarrow> string \<Rightarrow> world \<Rightarrow> world" where
  "setup_catch r err w =
     set_task r (Rejected (''Initialization query failed: '' @ err))
       (upd (\<lambda>m. m\<lparr>initQueriesPromise := None\<rparr>) w)"

text \<open>
  The loop of lines 196-205, entered at index \<open>i\<close>: it reads \<open>this.initQueries\<close> and
  \<open>this.connection\<close> anew in every iteration, submits statement \<open>i\<close> and suspends, or
  leaves the loop and sets the flag. Reading \<open>query\<close> of a \<open>null\<close> connection throws at
  once, inside the \<open>try\<close>.
\<close>

definition setup_loop :: "nat \<Rightarrow> nat \<Rightarrow> world \<Rightarrow> world" where
  "setup_loop r i w =
     (let qs = initQueries (mgr w) in
      if i < length qs then
        (let w1 = say Log (''Init query ['' @ show_nat (i + 1) @ ''/'' @ show_nat (length qs)
                             @ '']: '' @ qs ! i) w in
         case connection (mgr w1) of
           None \<Rightarrow> setup_catch r (null_property ''query'') w1
         | Some c \<Rightarrow> set_task r (Running (SR_Await i (qs ! i))) (emit (EvConnQuery c Setup (qs ! i)) w1))
      else
        set_task r (Fulfilled RVoid)
          (upd (\<lambda>m. m\<lparr>initQueriesExecuted := True\<rparr>)
            (say Log ''Initialization queries completed successfully'' w)))"

text \<open>
  A call of executeInitQueries, and the promise the caller then awaits, if any. The
  assignment of line 192 stores the promise after the anonymous function has run up to its
  first \<open>await\<close>, or to its end when it threw before one.
\<close>

definition executeInitQueries :: "world \<Rightarrow> nat option \<times> world" where
  "executeInitQueries w =
     (if initQueriesExecuted (mgr w) then (None, w)
      else
        (case initQueriesPromise (mgr w) of
           Some p \<Rightarrow> (Some p, w)
         | None \<Rightarrow>
             (if initQueries (mgr w) = [] then (None, upd (\<lambda>m. m\<lparr>initQueriesExecuted := True\<rparr>) w)
              else
                (case fresh w of (r, w0) \<Rightarrow>
                   (Some r,
                    upd (\<lambda>m. m\<lparr>initQueriesPromise := Some r\<rparr>)
                      (setup_loop r 0
                        (say Log (''Executing '' @ show_nat (length (initQueries (mgr w0)))
                                    @ '' initialization queries...'') w0)))))))"

definition sr_await :: "nat \<Rightarrow> nat \<Rightarrow> string \<Rightarrow> outcome \<Rightarrow> world \<Rightarrow> world" where
  "sr_await r i q oc w =
     (case oc of
        Ok (PTable tb) \<Rightarrow> setup_loop r (i + 1) (emit (EvQueryResult Setup q True) w)
      | Fail e \<Rightarrow> setup_catch r e (emit (EvQueryResult Setup q False) w)
      | FailValue e \<Rightarrow> setup_catch r e (emit (EvQueryResult Setup q False) w)
      | _ \<Rightarrow> w)"

subsection \<open>query (lines 245-283)\<close>

definition getChildAt :: "table \<Rightarrow> nat \<Rightarrow> jsval list option" where
  "getChildAt tb j = (if j < length (children tb) then children tb ! j else None)"

definition col_get :: "jsval list \<Rightarrow> nat \<Rightarrow> jsval" where
  "col_get col i = (if i < length col then col ! i else JUndefined)"

text \<open>\<open>col?.get(i) ?? null\<close> (line 269).\<close>

definition cell :: "table \<Rightarrow> nat \<Rightarrow> nat \<Rightarrow> jsval" where
  "cell tb i j =
     (case getChildAt tb j of
        None \<Rightarrow> JNull
      | Some col \<Rightarrow> (case col_get col i of JUndefined \<Rightarrow> JNull | JNull \<Rightarrow> JNull | v \<Rightarrow> v))"

text \<open>The inner loop of lines 267-270, from column \<open>j\<close>, and the outer one, from row \<open>i\<close>.\<close>

function row_from :: "table \<Rightarrow> nat \<Rightarrow> nat \<Rightarrow> jsval list \<Rightarrow> jsval list" where
  "row_from tb i j row = (if j < numCols tb then row_from tb i (j + 1) (row @ [cell tb i j]) else row)"
  by pat_completeness auto
termination
  by (relation "measure (\<lambda>(tb, i, j, row). numCols tb - j)") auto

declare row_from.simps [simp del]

function rows_from :: "table \<Rightarrow> nat \<Rightarrow> jsval list list \<Rightarrow> jsval list list" where
  "rows_from tb i rs = (if i < numRows tb then rows_from tb (i + 1) (rs @ [row_from tb i 0 []]) else rs)"
  by pat_completeness auto
termination
  by (relation "measure (\<lambda>(tb, i, rs). numRows tb - i)") auto

declare rows_from.simps [simp del]

definition convert_result :: "table \<Rightarrow> real \<Rightarrow> QueryResult" where
  "convert_result tb elapsed =
     \<lparr>columns = schema_fields tb, rows = rows_from tb 0 [], rowCount = numRows tb,
      executionTime = elapsed\<rparr>"

definition call_query :: "string \<Rightarrow> world \<Rightarrow> world" where
  "call_query sql w =
     (case fresh w of (t, w0) \<Rightarrow>
        (case initialize w0 of (p, w1) \<Rightarrow> set_task t (Running (Q_AwaitInit p sql)) w1))"

definition q_after_init :: "nat \<Rightarrow> nat option \<Rightarrow> string \<Rightarrow> world \<Rightarrow> world" where
  "q_after_init t p sql w =
     (case awaited w p of
        Pending \<Rightarrow> w
      | Thrown e \<Rightarrow> set_task t (Rejected e) w
      | Resolved \<Rightarrow>
          (case executeInitQueries w of (r, w1) \<Rightarrow> set_task t (Running (Q_AwaitSetup r sql)) w1))"

definition q_after_setup :: "nat \<Rightarrow> nat option \<Rightarrow> string \<Rightarrow> world \<Rightarrow> world" where
  "q_after_setup t r sql w =
     (case awaited w r of
        Pending \<Rightarrow> w
      | Thrown e \<Rightarrow> set_task t (Rejected e) w
      | Resolved \<Rightarrow>
          (case connection (mgr w) of
             None \<Rightarrow> set_task t (Rejected ''DuckDB connection not available'') w
           | Some c \<Rightarrow>
               set_task t (Running (Q_AwaitResult (now w) sql)) (emit (EvConnQuery c User sql) w)))"

definition q_result :: "nat \<Rightarrow> real \<Rightarrow> string \<Rightarrow> outcome \<Rightarrow> world \<Rightarrow> world" where
  "q_result t startTime sql oc w =
     (case oc of
        Ok (PTable tb) \<Rightarrow>
          set_task t (Fulfilled (RQuery (convert_result tb (now w - startTime))))
            (emit (EvQueryResult User sql True) w)
      | Fail e \<Rightarrow>
          set_task t (Rejected (''Query execution failed: '' @ e))
            (emit (EvQueryResult User sql False) w)
      | FailValue e \<Rightarrow>
          set_task t (Rejected (''Query execution failed: '' @ e))
            (emit (EvQueryResult User sql False) w)
      | _ \<Rightarrow> w)"

subsection \<open>registerFile (lines 221-240)\<close>

definition call_registerFile :: "string \<Rightarrow> string \<Rightarrow> world \<Rightarrow> world" where
  "call_registerFile name url w =
     (case fresh w of (t, w0) \<Rightarrow>
        (case initialize w0 of (p, w1) \<Rightarrow> set_task t (Running (R_AwaitInit p name url)) w1))"

definition r_after_init :: "nat \<Rightarrow> nat option \<Rightarrow> string \<Rightarrow> string \<Rightarrow> world \<Rightarrow> world" where
  "r_after_init t p name url w =
     (case awaited w p of
        Pending \<Rightarrow> w
      | Thrown e \<Rightarrow> set_task t (Rejected e) w
      | Resolved \<Rightarrow>
          (case db (mgr w) of
             None \<Rightarrow> set_task t (Rejected ''DuckDB not initialized'') w
           | Some d \<Rightarrow>
               (if url \<in> registeredFiles (mgr w) then set_task t (Fulfilled RVoid) w
                else set_task t (Running (R_AwaitRegister name url))
                       (emit (EvRegisterFileURL d name url) w))))"

definition r_registered :: "nat \<Rightarrow> string \<Rightarrow> string \<Rightarrow> outcome \<Rightarrow> world \<Rightarrow> world" where
  "r_registered t name url oc w =
     (case oc of
        Ok PUnit \<Rightarrow>
          set_task t (Fulfilled RVoid)
            (upd (\<lambda>m. m\<lparr>registeredFiles := insert url (registeredFiles m)\<rparr>) w)
      | Fail e \<Rightarrow> set_task t (Rejected (''Failed to register file '' @ name @ '': '' @ e)) w
      | FailValue e \<Rightarrow> set_task t (Rejected (''Failed to register file '' @ name @ '': '' @ e)) w
      | _ \<Rightarrow> w)"

subsection \<open>close (lines 288-306)\<close>

text \<open>Lines 299-305.\<close>

definition close_reset :: "nat \<Rightarrow> world \<Rightarrow> world" where
  "close_reset t w =
     set_task t (Fulfilled RVoid)
       (upd (\<lambda>m. m\<lparr>initPromise := None, registeredFiles := {}, initQueriesExecuted := False,
                    initQueriesPromise := None, initQueries := []\<rparr>) w)"

text \<open>Lines 294-297, up to the \<open>await\<close>.\<close>

definition close_db :: "nat \<Rightarrow> world \<Rightarrow> world" where
  "close_db t w =
     (case db (mgr w) of
        None \<Rightarrow> close_reset t w
      | Some d \<Rightarrow> set_task t (Running C_AwaitTerminate) (emit (EvTerminate d) w))"

definition call_close :: "world \<Rightarrow> world" where
  "call_close w =
     (case fresh w of (t, w0) \<Rightarrow>
        (case connection (mgr w0) of
           None \<Rightarrow> close_db t w0
         | Some c \<Rightarrow> set_task t (Running C_AwaitConnClose) (emit (EvConnClose c) w0)))"

definition c_conn_closed :: "nat \<Rightarrow> outcome \<Rightarrow> world \<Rightarrow> world" where
  "c_conn_closed t oc w =
     (case oc of
        Ok PUnit \<Rightarrow> close_db t (upd (\<lambda>m. m\<lparr>connection := None\<rparr>) w)
      | Fail e \<Rightarrow> set_task t (Rejected e) w
      | FailValue e \<Rightarrow> set_task t (Rejected e) w
      | _ \<Rightarrow> w)"

definition c_terminated :: "nat \<Rightarrow> outcome \<Rightarrow> world \<Rightarrow> world" where
  "c_terminated t oc w =
     (case oc of
        Ok PUnit \<Rightarrow> close_reset t (upd (\<lambda>m. m\<lparr>db := None\<rparr>) w)
      | Fail e \<Rightarrow> set_task t (Rejected e) w
      | FailValue e \<Rightarrow> set_task t (Rejected e) w
      | _ \<Rightarrow> w)"

subsection \<open>Schedules\<close>

text \<open>
  \<open>Resume t\<close> continues task \<open>t\<close> after an \<open>await\<close> of one of the manager's own promises;
  \<open>Settle t oc\<close> is the environment answering what task \<open>t\<close> asked of it, upon which the
  task continues; \<open>Tick d\<close> lets time pass. An action that is not possible in a state (no
  such task, a promise still pending, an answer of the wrong shape) leaves it unchanged.
\<close>

datatype action =
    CallConfigure PartialConfig
  | CallConfigureInitQueries "string list"
  | CallQuery string
  | CallRegisterFile string string
  | CallClose
  | Resume nat
  | Settle nat outcome
  | Tick real

definition resume :: "nat \<Rightarrow> pc \<Rightarrow> world \<Rightarrow> world" where
  "resume t p w =
     (case p of
        DI_GotModule m \<Rightarrow> di_got_module t m w
      | Q_AwaitInit i sql \<Rightarrow> q_after_init t i sql w
      | Q_AwaitSetup r sql \<Rightarrow> q_after_setup t r sql w
      | R_AwaitInit i name url \<Rightarrow> r_after_init t i name url w
      | _ \<Rightarrow> w)"

definition settle :: "nat \<Rightarrow> pc \<Rightarrow> outcome \<Rightarrow> world \<Rightarrow> world" where
  "settle t p oc w =
     (case p of
        DI_AwaitImport \<Rightarrow> di_import t oc w
      | DI_AwaitCdnImport importError \<Rightarrow> di_cdn_import t importError oc w
      | DI_AwaitSelectBundle m \<Rightarrow> di_select_bundle t m oc w
      | DI_AwaitFetch m b \<Rightarrow> di_fetch t m b oc w
      | DI_AwaitBlob m b \<Rightarrow> di_blob t m b oc w
      | DI_AwaitInstantiate \<Rightarrow> di_instantiate t oc w
      | DI_AwaitConnect \<Rightarrow> di_connect t oc w
      | SR_Await i q \<Rightarrow> sr_await t i q oc w
      | Q_AwaitResult startTime sql \<Rightarrow> q_result t startTime sql oc w
      | R_AwaitRegister name url \<Rightarrow> r_registered t name url oc w
      | C_AwaitConnClose \<Rightarrow> c_conn_closed t oc w
      | C_AwaitTerminate \<Rightarrow> c_terminated t oc w
      | _ \<Rightarrow> w)"

definition step :: "action \<Rightarrow> world \<Rightarrow> world" where
  "step a w =
     (case a of
        CallConfigure p \<Rightarrow> configure p w
      | CallConfigureInitQueries qs \<Rightarrow> configureInitQueries qs w
      | CallQuery sql \<Rightarrow> call_query sql w
      | CallRegisterFile name url \<Rightarrow> call_registerFile name url w
      | CallClose \<Rightarrow> call_close w
      | Resume t \<Rightarrow> (case tasks w t of Some (Running p) \<Rightarrow> resume t p w | _ \<Rightarrow> w)
      | Settle t oc \<Rightarrow> (case tasks w t of Some (Running p) \<Rightarrow> settle t p oc w | _ \<Rightarrow> w)
      | Tick d \<Rightarrow> (if 0 \<le> d then w\<lparr>now := now w + d\<rparr> else w))"

fun run :: "action list \<Rightarrow> world \<Rightarrow> world" where
  "run [] w = w"
| "run (a # as) w = run as (step a w)"


text \<open>The statements submitted to the connection, in order, with where they came from.\<close>

fun submitted :: "event list \<Rightarrow> (origin \<times> string) list" where
  "submitted [] = []"
| "submitted (EvConnQuery c og q # es) = (og, q) # submitted es"
| "submitted (e # es) = submitted es"

subsection \<open>What the connection sees of setup\<close>

text \<open>
  The trace, restricted to the setup statements: a statement submitted from the setup loop,
  and the engine's answer to it (accepted or rejected).
\<close>

datatype setup_ev = Submit string | Answer string bool

fun setup_log :: "event list \<Rightarrow> setup_ev list" where
  "setup_log [] = []"
| "setup_log (EvConnQuery c Setup q # es) = Submit q # setup_log es"
| "setup_log (EvQueryResult Setup q b # es) = Answer q b # setup_log es"
| "setup_log (e # es) = setup_log es"

text \<open>One complete setup run: every statement submitted and accepted, in the list's order.\<close>

fun script :: "string list \<Rightarrow> setup_ev list" where
  "script [] = []"
| "script (q # qs) = Submit q # Answer q True # script qs"

fun is_user_submit :: "event \<Rightarrow> bool" where
  "is_user_submit (EvConnQuery c User q) = True"
| "is_user_submit e = False"

text \<open>
  Every user statement in the trace is submitted when the connection has received, of the
  setup statements, exactly one complete run.
\<close>

definition user_after_setup :: "string list \<Rightarrow> event list \<Rightarrow> bool" where
  "user_after_setup qs tr =
     (\<forall>k<length tr. is_user_submit (tr ! k) \<longrightarrow> setup_log (take k tr) = script qs)"

text \<open>The engine has rejected no setup statement.\<close>

definition no_reject_ev :: "event list \<Rightarrow> bool" where
  "no_reject_ev tr = (\<forall>q. Answer q False \<notin> set (setup_log tr))"

text \<open>
  The actions of one connection lifetime with a fixed statement list: everything but close
  and configureInitQueries.
\<close>

fun lifetime_action :: "action \<Rightarrow> bool" where
  "lifetime_action CallClose = False"
| "lifetime_action (CallConfigureInitQueries qs) = False"
| "lifetime_action a = True"

text \<open>
  The invariant of such a lifetime. The setup log is determined by the setup state: complete
  when the flag is set, empty when no run has been started or the run threw at once, and
  statements \<open>0..i\<close> with \<open>i\<close> unanswered while a run awaits statement \<open>i\<close>. A run that
  awaits is the stored promise. A query that awaits a setup promise awaits a run that is in
  flight or rejected, unless the flag is set. No identifier from \<open>next_id\<close> on is in use.
\<close>

definition setup_inv :: "string list \<Rightarrow> world \<Rightarrow> bool" where
  "setup_inv qs w \<longleftrightarrow>
     initQueries (mgr w) = qs
   \<and> (\<forall>t. next_id w \<le> t \<longrightarrow> tasks w t = None)
   \<and> (initQueriesExecuted (mgr w) \<longrightarrow> setup_log (trace w) = script qs)
   \<and> (\<not> initQueriesExecuted (mgr w) \<and> initQueriesPromise (mgr w) = None \<longrightarrow> setup_log (trace w) = [])
   \<and> (\<forall>p e. \<not> initQueriesExecuted (mgr w) \<and> initQueriesPromise (mgr w) = Some p
          \<and> tasks w p = Some (Rejected e) \<longrightarrow> setup_log (trace w) = [])
   \<and> (\<forall>r i q. tasks w r = Some (Running (SR_Await i q)) \<longrightarrow>
         initQueriesPromise (mgr w) = Some r \<and> \<not> initQueriesExecuted (mgr w)
         \<and> i < length qs \<and> q = qs ! i \<and> connection (mgr w) \<noteq> None
         \<and> setup_log (trace w) = script (take i qs) @ [Submit (qs ! i)])
   \<and> (\<forall>p. initQueriesPromise (mgr w) = Some p \<longrightarrow>
         initQueriesExecuted (mgr w) \<or> (\<exists>i q. tasks w p = Some (Running (SR_Await i q)))
         \<or> (\<exists>e. tasks w p = Some (Rejected e)))
   \<and> (\<forall>t sql. tasks w t = Some (Running (Q_AwaitSetup None sql)) \<longrightarrow> initQueriesExecuted (mgr w))
   \<and> (\<forall>t p sql. tasks w t = Some (Running (Q_AwaitSetup (Some p) sql)) \<longrightarrow>
         initQueriesExecuted (mgr w) \<or> (\<exists>i q. tasks w p = Some (Running (SR_Await i q)))
         \<or> (\<exists>e. tasks w p = Some (Rejected e)))
   \<and> (\<forall>t. tasks w t \<noteq> Some (Running C_AwaitConnClose) \<and> tasks w t \<noteq> Some (Running C_AwaitTerminate))
   \<and> user_after_setup qs (trace w)"

definition waiting_ok :: "world \<Rightarrow> nat \<Rightarrow> bool" where
  "waiting_ok w p \<longleftrightarrow>
     initQueriesExecuted (mgr w) \<or> (\<exists>i q. tasks w p = Some (Running (SR_Await i q)))
     \<or> (\<exists>e. tasks w p = Some (Rejected e))"

text \<open>
  The suspension points whose continuation reads or writes the setup state (those of close
  included, which a lifetime does not contain).
\<close>

fun setup_pc :: "pc \<Rightarrow> bool" where
  "setup_pc (SR_Await i q) = True"
| "setup_pc (Q_AwaitInit p sql) = True"
| "setup_pc (Q_AwaitSetup p sql) = True"
| "setup_pc C_AwaitConnClose = True"
| "setup_pc C_AwaitTerminate = True"
| "setup_pc pc = False"

text \<open>
  A task state that the invariant says nothing about, before a step (no task, or one that is
  not a setup run) and after it.
\<close>

fun idle_before :: "tstate option \<Rightarrow> bool" where
  "idle_before None = True"
| "idle_before (Some (Running (SR_Await i q))) = False"
| "idle_before (Some (Running pc)) = True"
| "idle_before (Some st) = False"

fun idle_after :: "tstate option \<Rightarrow> bool" where
  "idle_after (Some (Running (SR_Await i q))) = False"
| "idle_after (Some (Running (Q_AwaitSetup p sql))) = False"
| "idle_after (Some (Running C_AwaitConnClose)) = False"
| "idle_after (Some (Running C_AwaitTerminate)) = False"
| "idle_after st = True"

text \<open>The events that lead from the trace of one state to that of a later one.\<close>

definition added :: "world \<Rightarrow> world \<Rightarrow> event list" where
  "added w w' = drop (length (trace w)) (trace w')"

text \<open>A step of task \<open>t\<close> that has nothing to do with setup.\<close>

definition quiet :: "nat \<Rightarrow> world \<Rightarrow> world \<Rightarrow> bool" where
  "quiet t w w' \<longleftrightarrow>
     initQueries (mgr w') = initQueries (mgr w)
   \<and> initQueriesExecuted (mgr w') = initQueriesExecuted (mgr w)
   \<and> initQueriesPromise (mgr w') = initQueriesPromise (mgr w)
   \<and> (connection (mgr w) \<noteq> None \<longrightarrow> connection (mgr w') \<noteq> None)
   \<and> next_id w' = next_id w
   \<and> tasks w' = (tasks w)(t := tasks w' t)
   \<and> idle_after (tasks w' t)
   \<and> trace w' = trace w @ added w w'
   \<and> setup_log (added w w') = []
   \<and> list_all (\<lambda>e. \<not> is_user_submit e) (added w w')"

definition grows :: "world \<Rightarrow> world \<Rightarrow> bool" where
  "grows w w' \<longleftrightarrow> trace w' = trace w @ added w w'"

subsection \<open>A setup run that threw before its first statement\<close>

text \<open>The flag is unset and the stored setup promise is rejected.\<close>

definition stuck :: "world \<Rightarrow> bool" where
  "stuck w \<longleftrightarrow>
     \<not> initQueriesExecuted (mgr w)
   \<and> (\<exists>p e. initQueriesPromise (mgr w) = Some p \<and> tasks w p = Some (Rejected e))"

subsection \<open>File registrations and the connection\<close>









subsection \<open>Two runs that differ in the configured cdn\<close>

text \<open>A state with the \<open>cdn\<close> field blanked, and an action with its \<open>cdn\<close> argument removed.\<close>

definition hide_m :: "DuckDBManager \<Rightarrow> DuckDBManager" where
  "hide_m m = m\<lparr>config := (config m)\<lparr>cdn := None\<rparr>\<rparr>"

definition hide_cdn :: "world \<Rightarrow> world" where
  "hide_cdn w = w\<lparr>mgr := hide_m (mgr w)\<rparr>"

fun public_action :: "action \<Rightarrow> action" where
  "public_action (CallConfigure p) = CallConfigure (p\<lparr>cdn_opt := None\<rparr>)"
| "public_action a = a"

subsection \<open>Concrete inputs\<close>

definition bundle0 :: wasm_bundle where
  "bundle0 = \<lparr>mainModule = ''duckdb-mvp.wasm'', mainWorker = ''https://h/duckdb-browser-mvp.worker.js''\<rparr>"

definition response_ok :: response where
  "response_ok = \<lparr>ok = True, status = 200, statusText = ''OK''\<rparr>"

definition table_one :: table where
  "table_one = \<lparr>schema_fields = [''1''], numRows = 1, numCols = 1, children = [Some [JNum 1]]\<rparr>"

definition table_empty :: table where
  "table_empty = \<lparr>schema_fields = [], numRows = 0, numCols = 0, children = []\<rparr>"

text \<open>
  The environment's answers to doInitialize task \<open>d\<close> when everything succeeds, up to the
  engine instance being stored (the instantiation is then pending), and from there to the
  open connection.
\<close>

definition boot_instance :: "nat \<Rightarrow> action list" where
  "boot_instance d =
     [Settle d (Ok (PModule 7)), Resume d, Settle d (Ok (PBundle bundle0)),
      Settle d (Ok (PResponse response_ok)), Settle d (Ok PUnit)]"

definition boot_connect :: "nat \<Rightarrow> action list" where
  "boot_connect d = [Settle d (Ok PUnit), Settle d (Ok (PConn 5))]"

definition fresh_world :: world where
  "fresh_world = init_world (Some None)"

text \<open>One query on a fresh manager, suspended after its wait for setup, at time 1.\<close>

definition world_before_submit :: world where
  "world_before_submit =
     run ([CallQuery ''SELECT 1''] @ boot_instance 1 @ boot_connect 1 @ [Resume 0, Tick 1])
       fresh_world"

text \<open>
  A second query is called while the first call's doInitialize awaits the instantiation
  of the engine instance it has already stored in \<open>this.db\<close>.
\<close>

definition second_call_during_instantiate :: "action list" where
  "second_call_during_instantiate =
     [CallQuery ''SELECT 1''] @ boot_instance 1 @ [CallQuery ''SELECT 2'']"

text \<open>
  The same with one setup statement configured; then the connection is built and the first
  caller continues.
\<close>

definition second_call_with_setup :: "action list" where
  "second_call_with_setup =
     [CallConfigureInitQueries [''INSTALL spatial''], CallQuery ''SELECT 1''] @ boot_instance 1
       @ [CallQuery ''SELECT 2'', Resume 2, Resume 2] @ boot_connect 1 @ [Resume 0, Resume 0]"

text \<open>
  Setup statements \<open>[A, B, C]\<close> and a query; a second query is called and continues while
  doInitialize (task 1) awaits the instantiation: its setup run (task 3) finds no connection.
  Then the connection is built and the first query continues.
\<close>

definition early_second_call :: "string \<Rightarrow> string \<Rightarrow> string \<Rightarrow> string \<Rightarrow> string \<Rightarrow> action list" where
  "early_second_call A B C sql1 sql2 =
     [CallConfigureInitQueries [A, B, C], CallQuery sql1] @ boot_instance 1
       @ [CallQuery sql2, Resume 2, Resume 2] @ boot_connect 1 @ [Resume 0, Resume 0]"

text \<open>A second query is called before the engine instance is stored.\<close>

definition second_call_before_instance :: "action list" where
  "second_call_before_instance =
     [CallQuery ''SELECT 1'', Settle 1 (Ok (PModule 7)), Resume 1, CallQuery ''SELECT 2'']"

text \<open>
  The instantiation of the engine fails; the caller sees the failure; a second query follows.
\<close>

definition instantiate_fails :: "action list" where
  "instantiate_fails =
     [CallQuery ''SELECT 1''] @ boot_instance 1 @ [Settle 1 (Fail ''out of memory''), Resume 0]"

text \<open>The fetch of the worker fails instead, before the engine instance is built.\<close>

definition fetch_fails :: "action list" where
  "fetch_fails =
     [CallQuery ''SELECT 1'', Settle 1 (Ok (PModule 7)), Resume 1, Settle 1 (Ok (PBundle bundle0)),
      Settle 1 (Fail ''Network error''), Resume 0]"

text \<open>
  Setup statements \<open>[A, B, C]\<close> on a fresh manager and one query: the connection is built,
  the setup run (task 2) submits \<open>A\<close>, the engine accepts it, the run submits \<open>B\<close>, the
  engine rejects it with \<open>e\<close>, and the query (task 0) sees the failure.
\<close>

definition setup_second_fails :: "string \<Rightarrow> string \<Rightarrow> string \<Rightarrow> string \<Rightarrow> string \<Rightarrow> action list" where
  "setup_second_fails A B C e sql =
     [CallConfigureInitQueries [A, B, C], CallQuery sql] @ boot_instance 1 @ boot_connect 1
       @ [Resume 0, Settle 2 (Ok (PTable table_empty)), Settle 2 (Fail e), Resume 0]"

text \<open>
  A later query (task 3): its setup run (task 4) has all three statements accepted, and the
  query submits its own statement.
\<close>

definition setup_retry :: "string \<Rightarrow> action list" where
  "setup_retry sql =
     [CallQuery sql, Resume 3, Settle 4 (Ok (PTable table_empty)),
      Settle 4 (Ok (PTable table_empty)), Settle 4 (Ok (PTable table_empty)), Resume 3]"

text \<open>A call of close on its own: the engine confirms what close asks, nothing else runs.\<close>

definition close_now :: "world \<Rightarrow> action list" where
  "close_now w = [CallClose, Settle (next_id w) (Ok PUnit), Settle (next_id w) (Ok PUnit)]"

text \<open>One query on a fresh manager, answered, and then a close.\<close>

definition query_then_close :: "action list" where
  "query_then_close =
     [CallQuery ''SELECT 1''] @ boot_instance 1 @ boot_connect 1
       @ [Resume 0, Resume 0, Settle 0 (Ok (PTable table_one)),
          CallClose, Settle 2 (Ok PUnit), Settle 2 (Ok PUnit)]"


text \<open>
  One setup statement is configured and a file is registered on a fresh manager: the
  connection is built and the caller (task 0) has not yet continued.
\<close>

definition register_with_setup_configured :: "action list" where
  "register_with_setup_configured =
     [CallConfigureInitQueries [''INSTALL spatial''], CallRegisterFile ''x'' ''https://h/x'']
       @ boot_instance 1 @ boot_connect 1"

text \<open>Three setup statements, one query: the setup run (task 2) has submitted the first.\<close>

definition setup_running :: "action list" where
  "setup_running =
     [CallConfigureInitQueries [''A'', ''B'', ''C''], CallQuery ''SELECT 1'']
       @ boot_instance 1 @ boot_connect 1 @ [Resume 0]"

text \<open>
  Two registrations of one URL: the second is called, and passes the membership test,
  while the first awaits the engine.
\<close>

definition overlapping_registrations :: "action list" where
  "overlapping_registrations =
     [CallRegisterFile ''x'' ''https://h/x''] @ boot_instance 1 @ boot_connect 1
       @ [Resume 0, CallRegisterFile ''x'' ''https://h/x'', Resume 2,
          Settle 0 (Ok PUnit), Settle 2 (Ok PUnit)]"

text \<open>Two registrations of one URL, one after the other, the first answered with \<open>oc\<close>.\<close>

definition register_twice :: "world \<Rightarrow> string \<Rightarrow> string \<Rightarrow> string \<Rightarrow> outcome \<Rightarrow> action list" where
  "register_twice w name name2 url oc =
     [CallRegisterFile name url, Resume (next_id w), Settle (next_id w) oc,
      CallRegisterFile name2 url, Resume (Suc (next_id w))]"

text \<open>
  Setup statements on a fresh manager and two queries, the second called before the
  connection exists: the setup run is task 3; the engine accepts everything.
\<close>

definition configured_world :: "string list \<Rightarrow> world" where
  "configured_world qs = step (CallConfigureInitQueries qs) (init_world (Some None))"

definition two_queries_with_setup :: "action list" where
  "two_queries_with_setup =
     [CallQuery ''SELECT 1'', CallQuery ''SELECT 2''] @ boot_instance 1 @ boot_connect 1
       @ [Resume 0, Resume 2, Settle 3 (Ok (PTable table_empty)),
          Settle 3 (Ok (PTable table_empty)), Settle 3 (Ok (PTable table_empty)),
          Resume 0, Resume 2]"

text \<open>
  A version and a delivery base are configured, a query is called, and the dynamic import
  fails, so that the module is requested from the delivery network.
\<close>

definition configure_and_load :: "string \<Rightarrow> action list" where
  "configure_and_load base =
     [CallConfigure \<lparr>version_opt = Some (Some ''1.30.0''), cdn_opt = Some (Some base)\<rparr>,
      CallQuery ''SELECT 1'', Settle 1 (Fail ''Failed to resolve module specifier'')]"

section \<open>Evaluation\<close>

lemmas model_defs =
  step_def resume_def settle_def call_query_def call_registerFile_def call_close_def
  configure_def configureInitQueries_def initialize_def doInitialize_def loadDuckDBModule_def fresh_def set_task_def
  emit_def say_def upd_def awaited_def di_catch_def di_got_module_def di_import_def
  di_cdn_import_def di_select_bundle_def di_fetch_def di_blob_def di_instantiate_def
  di_connect_def setup_catch_def setup_loop_def executeInitQueries_def sr_await_def
  q_after_init_def q_after_setup_def q_result_def r_after_init_def r_registered_def
  close_reset_def close_db_def c_conn_closed_def c_terminated_def init_world_def
  new_manager_def isInitialized_def

lemmas basic_defs = set_task_def emit_def say_def upd_def di_catch_def

lemma run_append: "run (xs @ ys) w = run ys (run xs w)"
  by (induction xs arbitrary: w) auto

section \<open>Result conversion\<close>






lemmas input_defs =
  bundle0_def response_ok_def table_one_def table_empty_def boot_instance_def boot_connect_def
  fresh_world_def



section \<open>Initialization\<close>

text \<open>
  C1 (the code departs from the claim). A query called before the engine instance is stored
  awaits the pending promise of the first call. A query called while doInitialize awaits the
  instantiation does not: \<open>initialize\<close> finds \<open>this.db\<close> set and returns at once, so the
  caller goes on while the promise is pending and no connection exists, and is rejected.
  With a setup statement configured, it starts the setup run without a connection; the run
  throws before its first \<open>await\<close>, its rejected promise is stored, and the first caller is
  rejected with it after the connection has been built: the connection receives nothing.
\<close>

theorem second_caller_passes_pending_initialization:
  "tasks (run second_call_before_instance fresh_world) 2
     = Some (Running (Q_AwaitInit (Some 1) ''SELECT 2''))
   \<and> tasks (run second_call_during_instantiate fresh_world) 2
     = Some (Running (Q_AwaitInit None ''SELECT 2''))
   \<and> tasks (run second_call_during_instantiate fresh_world) 0
     = Some (Running (Q_AwaitInit (Some 1) ''SELECT 1''))
   \<and> tasks (run (second_call_during_instantiate @ [Resume 2, Resume 2]) fresh_world) 2
     = Some (Rejected ''DuckDB connection not available'')
   \<and> tasks (run (second_call_during_instantiate @ [Resume 2, Resume 2]) fresh_world) 1
     = Some (Running DI_AwaitInstantiate)
   \<and> initPromise (mgr (run (second_call_during_instantiate @ [Resume 2, Resume 2]) fresh_world))
     = Some 1
   \<and> connection (mgr (run (second_call_during_instantiate @ [Resume 2, Resume 2]) fresh_world))
     = None
   \<and> tasks (run second_call_with_setup fresh_world) 1 = Some (Fulfilled RVoid)
   \<and> connection (mgr (run second_call_with_setup fresh_world)) = Some 5
   \<and> tasks (run second_call_with_setup fresh_world) 2
     = Some (Rejected (''Initialization query failed: '' @ null_property ''query''))
   \<and> tasks (run second_call_with_setup fresh_world) 0
     = Some (Rejected (''Initialization query failed: '' @ null_property ''query''))
   \<and> initQueriesPromise (mgr (run second_call_with_setup fresh_world)) = Some 3
   \<and> tasks (run second_call_with_setup fresh_world) 3
     = Some (Rejected (''Initialization query failed: '' @ null_property ''query''))
   \<and> submitted (trace (run second_call_with_setup fresh_world)) = []"
  by (simp add: second_call_before_instance_def second_call_during_instantiate_def
      second_call_with_setup_def input_defs model_defs)

text \<open>
  C2 (the code departs from the claim). When the fetch of the worker fails, no engine
  instance has been stored, \<open>initPromise\<close> is cleared, and the next query starts a new
  doInitialize. When the instantiation fails, the \<open>catch\<close> of doInitialize clears
  \<open>initPromise\<close> but leaves the engine instance in \<open>this.db\<close>: the manager reports itself
  initialized, and the next query starts no new acquisition (no task is created for it, no
  further call reaches the module loader, the network or the engine) and is rejected for
  want of a connection.
\<close>

theorem failed_instantiation_is_not_retried:
  "db (mgr (run fetch_fails fresh_world)) = None
   \<and> initPromise (mgr (run fetch_fails fresh_world)) = None
   \<and> tasks (run fetch_fails fresh_world) 0
       = Some (Rejected ''Failed to initialize DuckDB: Network error'')
   \<and> initPromise (mgr (run (fetch_fails @ [CallQuery ''SELECT 2'']) fresh_world)) = Some 3
   \<and> tasks (run (fetch_fails @ [CallQuery ''SELECT 2'']) fresh_world) 3
       = Some (Running (DI_GotModule 7))
   \<and> db (mgr (run instantiate_fails fresh_world)) = Some 1
   \<and> connection (mgr (run instantiate_fails fresh_world)) = None
   \<and> initPromise (mgr (run instantiate_fails fresh_world)) = None
   \<and> isInitialized (run instantiate_fails fresh_world)
   \<and> tasks (run instantiate_fails fresh_world) 0
       = Some (Rejected ''Failed to initialize DuckDB: out of memory'')
   \<and> initPromise (mgr (run (instantiate_fails @ [CallQuery ''SELECT 2'']) fresh_world)) = None
   \<and> tasks (run (instantiate_fails @ [CallQuery ''SELECT 2'', Resume 2, Resume 2]) fresh_world) 2
       = Some (Rejected ''DuckDB connection not available'')
   \<and> tasks (run (instantiate_fails @ [CallQuery ''SELECT 2'', Resume 2, Resume 2]) fresh_world) 3
       = None
   \<and> trace (run (instantiate_fails @ [CallQuery ''SELECT 2'', Resume 2, Resume 2]) fresh_world)
       = trace (run instantiate_fails fresh_world)"
  by (simp add: fetch_fails_def instantiate_fails_def input_defs model_defs)

section \<open>Setup statements\<close>

text \<open>
  C4. With setup statements \<open>[A, B, C]\<close>, when the engine rejects \<open>B\<close> with error \<open>e\<close>:
  the connection has received \<open>A\<close> and \<open>B\<close> and nothing else; the stored setup promise is
  cleared and the flag is unset, the list is unchanged; the setup run and the query that
  awaited it are rejected with "Initialization query failed: " followed by \<open>e\<close>. A later
  query starts a new run, which submits \<open>A\<close>, \<open>B\<close>, \<open>C\<close> from the beginning, sets the
  flag, and only then is the query's own statement submitted.
\<close>

theorem setup_failure_resets_and_retries:
  "submitted (trace (run (setup_second_fails A B C e sql) fresh_world)) = [(Setup, A), (Setup, B)]
   \<and> initQueriesPromise (mgr (run (setup_second_fails A B C e sql) fresh_world)) = None
   \<and> initQueriesExecuted (mgr (run (setup_second_fails A B C e sql) fresh_world)) = False
   \<and> initQueries (mgr (run (setup_second_fails A B C e sql) fresh_world)) = [A, B, C]
   \<and> tasks (run (setup_second_fails A B C e sql) fresh_world) 2
       = Some (Rejected (''Initialization query failed: '' @ e))
   \<and> tasks (run (setup_second_fails A B C e sql) fresh_world) 0
       = Some (Rejected (''Initialization query failed: '' @ e))
   \<and> submitted (trace (run (setup_second_fails A B C e sql @ setup_retry sql2) fresh_world))
       = [(Setup, A), (Setup, B), (Setup, A), (Setup, B), (Setup, C), (User, sql2)]
   \<and> initQueriesExecuted (mgr (run (setup_second_fails A B C e sql @ setup_retry sql2) fresh_world))
       = True"
  by (simp add: setup_second_fails_def setup_retry_def input_defs model_defs)


lemma submitted_append: "submitted (xs @ ys) = submitted xs @ submitted ys"
  by (induction xs rule: submitted.induct) auto

section \<open>Teardown\<close>

text \<open>
  C5 as stated fails: close does not reset the memoized module. After a query and a close
  the manager differs from a new one in \<open>duckdbModule\<close>, and where the first query on a
  new manager calls the module loader, the first query after the close does not: its
  doInitialize continues with the module kept from before the close.
\<close>

theorem close_keeps_module_counterexample:
  "mgr (run query_then_close fresh_world) \<noteq> new_manager
   \<and> duckdbModule (mgr (run query_then_close fresh_world)) = Some 7
   \<and> trace (run [CallQuery ''SELECT 2''] fresh_world) = [EvImport package_name]
   \<and> tasks (run [CallQuery ''SELECT 2''] fresh_world) 1 = Some (Running DI_AwaitImport)
   \<and> trace (run (query_then_close @ [CallQuery ''SELECT 2'']) fresh_world)
       = trace (run query_then_close fresh_world)
   \<and> tasks (run (query_then_close @ [CallQuery ''SELECT 2'']) fresh_world) 4
       = Some (Running (DI_GotModule 7))"
  by (simp add: query_then_close_def input_defs model_defs)

text \<open>
  C5, amended. After a close that runs on its own, in any state: every field of the manager
  has the value it has in a new manager, except the memoized module and the configuration,
  which are kept; \<open>isInitialized\<close> is false; the promise of close is fulfilled. A second
  close changes no field and calls nothing. A query that follows starts a new acquisition,
  which calls the module loader only if no module was memoized and none is published on
  \<open>window\<close>.
\<close>

theorem close_resets_all_but_module_and_config:
  "mgr (run (close_now w) w)
     = new_manager\<lparr>config := config (mgr w), duckdbModule := duckdbModule (mgr w)\<rparr>
   \<and> \<not> isInitialized (run (close_now w) w)
   \<and> tasks (run (close_now w) w) (next_id w) = Some (Fulfilled RVoid)
   \<and> mgr (step CallClose (run (close_now w) w)) = mgr (run (close_now w) w)
   \<and> trace (step CallClose (run (close_now w) w)) = trace (run (close_now w) w)
   \<and> initPromise (mgr (step (CallQuery sql) (run (close_now w) w))) = Some (Suc (Suc (next_id w)))
   \<and> trace (step (CallQuery sql) (run (close_now w) w))
       = trace (run (close_now w) w)
         @ (case duckdbModule (mgr w) of
              Some m \<Rightarrow> []
            | None \<Rightarrow> (case window w of Some (Some g) \<Rightarrow> [] | _ \<Rightarrow> [EvImport package_name]))"
  by (cases "connection (mgr w)"; cases "db (mgr w)")
    (simp_all add: close_now_def model_defs split: option.splits)

section \<open>File registration\<close>























text \<open>
  C8 as stated fails: the registered set is tested before, and extended after, the
  \<open>await\<close> of the engine's registration. Two calls for one URL, the second made while the
  first awaits the engine, both reach the engine, and both succeed.
\<close>

theorem overlapping_registrations_counterexample:
  "filter (\<lambda>e. e = EvRegisterFileURL 1 ''x'' ''https://h/x'')
      (trace (run overlapping_registrations fresh_world))
     = [EvRegisterFileURL 1 ''x'' ''https://h/x'', EvRegisterFileURL 1 ''x'' ''https://h/x'']
   \<and> tasks (run overlapping_registrations fresh_world) 0 = Some (Fulfilled RVoid)
   \<and> tasks (run overlapping_registrations fresh_world) 2 = Some (Fulfilled RVoid)"
  by (simp add: overlapping_registrations_def input_defs model_defs)

text \<open>
  C8, amended. A registerFile call that continues with its URL in the registered set calls
  nothing. With an engine instance present and the URL not in the set, two calls of
  registerFile for the URL, the second made after the first has settled, give: if the
  engine accepts the first, exactly one registration at the engine, the URL in the set and
  both promises fulfilled; if the engine rejects the first with \<open>e\<close>, the first promise
  rejected with the file's name and \<open>e\<close>, the set unchanged, and a second registration
  issued by the second call.
\<close>

theorem registration_once_when_not_overlapping:
  "(tasks w t = Some (Running (R_AwaitInit p name url)) \<and> url \<in> registeredFiles (mgr w)
      \<longrightarrow> trace (step (Resume t) w) = trace w)
   \<and> (db (mgr w) = Some d \<and> url \<notin> registeredFiles (mgr w) \<longrightarrow>
        trace (run (register_twice w name name2 url (Ok PUnit)) w)
          = trace w @ [EvRegisterFileURL d name url]
        \<and> tasks (run (register_twice w name name2 url (Ok PUnit)) w) (next_id w)
          = Some (Fulfilled RVoid)
        \<and> tasks (run (register_twice w name name2 url (Ok PUnit)) w) (Suc (next_id w))
          = Some (Fulfilled RVoid)
        \<and> registeredFiles (mgr (run (register_twice w name name2 url (Ok PUnit)) w))
          = insert url (registeredFiles (mgr w))
        \<and> trace (run (register_twice w name name2 url (Fail e)) w)
          = trace w @ [EvRegisterFileURL d name url, EvRegisterFileURL d name2 url]
        \<and> tasks (run (register_twice w name name2 url (Fail e)) w) (next_id w)
          = Some (Rejected (''Failed to register file '' @ name @ '': '' @ e))
        \<and> registeredFiles (mgr (run (register_twice w name name2 url (Fail e)) w))
          = registeredFiles (mgr w))"
proof -
  have skip: "trace (step (Resume t) w) = trace w"
    if "tasks w t = Some (Running (R_AwaitInit p name url))" "url \<in> registeredFiles (mgr w)"
    using that by (simp add: model_defs split: option.splits settled.splits)
  have twice: "trace (run (register_twice w name name2 url (Ok PUnit)) w)
          = trace w @ [EvRegisterFileURL d name url]
        \<and> tasks (run (register_twice w name name2 url (Ok PUnit)) w) (next_id w)
          = Some (Fulfilled RVoid)
        \<and> tasks (run (register_twice w name name2 url (Ok PUnit)) w) (Suc (next_id w))
          = Some (Fulfilled RVoid)
        \<and> registeredFiles (mgr (run (register_twice w name name2 url (Ok PUnit)) w))
          = insert url (registeredFiles (mgr w))
        \<and> trace (run (register_twice w name name2 url (Fail e)) w)
          = trace w @ [EvRegisterFileURL d name url, EvRegisterFileURL d name2 url]
        \<and> tasks (run (register_twice w name name2 url (Fail e)) w) (next_id w)
          = Some (Rejected (''Failed to register file '' @ name @ '': '' @ e))
        \<and> registeredFiles (mgr (run (register_twice w name name2 url (Fail e)) w))
          = registeredFiles (mgr w)"
    if "db (mgr w) = Some d" "url \<notin> registeredFiles (mgr w)"
    using that by (simp add: register_twice_def model_defs)
  show ?thesis
    using skip twice by blast
qed

text \<open>The state after one registration of the URL has succeeded, and a new call for it.\<close>

theorem registration_once_when_not_overlapping_witness:
  "tasks (run (register_with_setup_configured @ [Resume 0, Settle 0 (Ok PUnit),
             CallRegisterFile ''y'' ''https://h/x'']) fresh_world) 2
     = Some (Running (R_AwaitInit None ''y'' ''https://h/x''))
   \<and> ''https://h/x'' \<in> registeredFiles (mgr (run (register_with_setup_configured
          @ [Resume 0, Settle 0 (Ok PUnit), CallRegisterFile ''y'' ''https://h/x'']) fresh_world))
   \<and> trace (step (Resume 2) (run (register_with_setup_configured @ [Resume 0, Settle 0 (Ok PUnit),
             CallRegisterFile ''y'' ''https://h/x'']) fresh_world))
     = trace (run (register_with_setup_configured @ [Resume 0, Settle 0 (Ok PUnit),
             CallRegisterFile ''y'' ''https://h/x'']) fresh_world)
   \<and> db (mgr world_before_submit) = Some 1
   \<and> ''https://h/x'' \<notin> registeredFiles (mgr world_before_submit)
   \<and> trace (run (register_twice world_before_submit ''x'' ''y'' ''https://h/x'' (Ok PUnit))
        world_before_submit)
     = trace world_before_submit @ [EvRegisterFileURL 1 ''x'' ''https://h/x'']
   \<and> trace (run (register_twice world_before_submit ''x'' ''y'' ''https://h/x'' (Fail ''404''))
        world_before_submit)
     = trace world_before_submit
         @ [EvRegisterFileURL 1 ''x'' ''https://h/x'', EvRegisterFileURL 1 ''y'' ''https://h/x'']
   \<and> tasks (run (register_twice world_before_submit ''x'' ''y'' ''https://h/x'' (Fail ''404''))
        world_before_submit) (next_id world_before_submit)
     = Some (Rejected ''Failed to register file x: 404'')"
proof -
  let ?w1 = "run (register_with_setup_configured @ [Resume 0, Settle 0 (Ok PUnit),
             CallRegisterFile ''y'' ''https://h/x'']) fresh_world"
  have a1: "tasks ?w1 2 = Some (Running (R_AwaitInit None ''y'' ''https://h/x''))"
    by (simp add: register_with_setup_configured_def input_defs model_defs)
  have a2: "''https://h/x'' \<in> registeredFiles (mgr ?w1)"
    by (simp add: register_with_setup_configured_def input_defs model_defs)
  have b1: "db (mgr world_before_submit) = Some 1"
    by (simp add: world_before_submit_def input_defs model_defs)
  have b2: "''https://h/x'' \<notin> registeredFiles (mgr world_before_submit)"
    by (simp add: world_before_submit_def input_defs model_defs)
  show ?thesis
    using registration_once_when_not_overlapping
        [of ?w1 2 None "''y''" "''https://h/x''" 1 "''y''" "''404''"]
      registration_once_when_not_overlapping
        [of world_before_submit 0 None "''x''" "''https://h/x''" 1 "''y''" "''404''"]
      a1 a2 b1 b2
    by simp
qed

section \<open>Configuration of the setup statements\<close>

text \<open>
  C7 as stated fails: configureInitQueries tests the flag \<open>initQueriesExecuted\<close> only.
  While a setup run is in flight (its promise stored, its first statement submitted) the
  call replaces the list without a warning, and the run takes its next statement from the
  new list.
\<close>

theorem reconfigure_during_setup_counterexample:
  "initQueriesPromise (mgr (run setup_running fresh_world)) = Some 2
   \<and> tasks (run setup_running fresh_world) 2 = Some (Running (SR_Await 0 ''A''))
   \<and> initQueries (mgr (run setup_running fresh_world)) = [''A'', ''B'', ''C'']
   \<and> initQueries (mgr (run (setup_running @ [CallConfigureInitQueries [''A'', ''X'']]) fresh_world))
       = [''A'', ''X'']
   \<and> console (run (setup_running @ [CallConfigureInitQueries [''A'', ''X'']]) fresh_world)
       = console (run setup_running fresh_world)
   \<and> submitted (trace (run (setup_running @ [CallConfigureInitQueries [''A'', ''X''],
          Settle 2 (Ok (PTable table_empty)), Settle 2 (Ok (PTable table_empty))]) fresh_world))
       = [(Setup, ''A''), (Setup, ''X'')]
   \<and> initQueriesExecuted (mgr (run (setup_running @ [CallConfigureInitQueries [''A'', ''X''],
          Settle 2 (Ok (PTable table_empty)), Settle 2 (Ok (PTable table_empty))]) fresh_world))
       = True"
  by (simp add: setup_running_def input_defs model_defs)

text \<open>
  C7, amended. If setup has completed (the flag is set), configureInitQueries logs a warning
  and changes nothing else. Otherwise, whether or not a setup run is in flight, it replaces
  the list and changes nothing else; a run in flight then submits, after the statement it
  awaits has been accepted, the next statement of the new list.
\<close>

theorem configure_init_queries_guarded_by_flag:
  "(initQueriesExecuted (mgr w) \<longrightarrow>
      step (CallConfigureInitQueries qs) w
        = w\<lparr>console := console w
              @ [(Warn, ''Init queries already executed, configuration will not take effect'')]\<rparr>)
   \<and> (\<not> initQueriesExecuted (mgr w) \<longrightarrow>
      step (CallConfigureInitQueries qs) w = w\<lparr>mgr := (mgr w)\<lparr>initQueries := qs\<rparr>\<rparr>)
   \<and> (\<not> initQueriesExecuted (mgr w) \<and> tasks w r = Some (Running (SR_Await i q))
        \<and> connection (mgr w) = Some c \<and> Suc i < length qs \<longrightarrow>
      submitted (trace (run [CallConfigureInitQueries qs, Settle r (Ok (PTable tb))] w))
        = submitted (trace w) @ [(Setup, qs ! Suc i)])"
  by (simp add: model_defs submitted_append)

theorem configure_init_queries_guarded_by_flag_witness:
  "initQueriesExecuted (mgr world_before_submit)
   \<and> initQueries (mgr (step (CallConfigureInitQueries [''A'']) world_before_submit)) = []
   \<and> console (step (CallConfigureInitQueries [''A'']) world_before_submit)
       = console world_before_submit
           @ [(Warn, ''Init queries already executed, configuration will not take effect'')]
   \<and> \<not> initQueriesExecuted (mgr (run setup_running fresh_world))
   \<and> tasks (run setup_running fresh_world) 2 = Some (Running (SR_Await 0 ''A''))
   \<and> connection (mgr (run setup_running fresh_world)) = Some 5
   \<and> initQueries (mgr (step (CallConfigureInitQueries [''A'', ''X'']) (run setup_running fresh_world)))
       = [''A'', ''X'']
   \<and> submitted (trace (run [CallConfigureInitQueries [''A'', ''X''],
          Settle 2 (Ok (PTable table_empty))] (run setup_running fresh_world)))
       = [(Setup, ''A''), (Setup, ''X'')]"
proof -
  let ?w = "run setup_running fresh_world"
  let ?v = world_before_submit
  have a: "initQueriesExecuted (mgr ?v)"
    and a': "initQueries (mgr ?v) = []"
    by (simp_all add: world_before_submit_def input_defs model_defs)
  have b: "\<not> initQueriesExecuted (mgr ?w)"
    and c: "tasks ?w 2 = Some (Running (SR_Await 0 ''A''))"
    and d: "connection (mgr ?w) = Some 5"
    and e: "submitted (trace ?w) = [(Setup, ''A'')]"
    by (simp_all add: setup_running_def input_defs model_defs)
  have p1: "step (CallConfigureInitQueries [''A'']) ?v
      = ?v\<lparr>console := console ?v
            @ [(Warn, ''Init queries already executed, configuration will not take effect'')]\<rparr>"
    using configure_init_queries_guarded_by_flag [of ?v "[''A'']"] a by blast
  have q1: "initQueries (mgr (step (CallConfigureInitQueries [''A'']) ?v)) = []"
    by (simp add: p1 a')
  have q2: "console (step (CallConfigureInitQueries [''A'']) ?v)
      = console ?v @ [(Warn, ''Init queries already executed, configuration will not take effect'')]"
    by (simp add: p1)
  have len: "Suc 0 < length [''A'', ''X'']"
    by simp
  have p2: "step (CallConfigureInitQueries [''A'', ''X'']) ?w
      = ?w\<lparr>mgr := (mgr ?w)\<lparr>initQueries := [''A'', ''X'']\<rparr>\<rparr>"
    and p3: "submitted (trace (run [CallConfigureInitQueries [''A'', ''X''],
          Settle 2 (Ok (PTable table_empty))] ?w))
      = submitted (trace ?w) @ [(Setup, [''A'', ''X''] ! Suc 0)]"
    using configure_init_queries_guarded_by_flag
        [of ?w "[''A'', ''X'']" 2 0 "''A''" 5 table_empty] b c d len
    by blast+
  have q3: "initQueries (mgr (step (CallConfigureInitQueries [''A'', ''X'']) ?w)) = [''A'', ''X'']"
    by (simp add: p2)
  have q4: "submitted (trace (run [CallConfigureInitQueries [''A'', ''X''],
          Settle 2 (Ok (PTable table_empty))] ?w)) = [(Setup, ''A''), (Setup, ''X'')]"
    by (simp only: p3 e) simp
  show ?thesis
    using a q1 q2 b c d q3 q4 by blast
qed


section \<open>One setup run, in order, before any user statement\<close>

lemma setup_log_append [simp]: "setup_log (xs @ ys) = setup_log xs @ setup_log ys"
  by (induction xs rule: setup_log.induct) auto

lemma script_append: "script (xs @ ys) = script xs @ script ys"
  by (induction xs) auto

lemma script_take_Suc:
  "i < length qs \<Longrightarrow> script (take (Suc i) qs) = script (take i qs) @ [Submit (qs ! i), Answer (qs ! i) True]"
  by (simp add: take_Suc_conv_app_nth script_append)

lemma user_after_setup_snoc:
  "user_after_setup qs (tr @ [e]) =
     (user_after_setup qs tr \<and> (is_user_submit e \<longrightarrow> setup_log tr = script qs))"
  unfolding user_after_setup_def
  by (auto simp: nth_append less_Suc_eq)

lemma idle_beforeD:
  "idle_before s \<Longrightarrow> s \<noteq> Some (Running (SR_Await i q)) \<and> s \<noteq> Some (Rejected e)"
  by (cases s rule: idle_before.cases) auto

lemma idle_afterD:
  "idle_after s \<Longrightarrow> s \<noteq> Some (Running (SR_Await i q)) \<and> s \<noteq> Some (Running (Q_AwaitSetup p sql))
     \<and> s \<noteq> Some (Running C_AwaitConnClose) \<and> s \<noteq> Some (Running C_AwaitTerminate)"
  by (cases s rule: idle_after.cases) auto

lemma user_after_setup_quiet:
  "user_after_setup qs tr \<Longrightarrow> list_all (\<lambda>e. \<not> is_user_submit e) evs \<Longrightarrow> user_after_setup qs (tr @ evs)"
  unfolding user_after_setup_def list_all_length
  by (auto simp: nth_append)

lemma inv_frame:
  assumes inv: "setup_inv qs w"
    and m: "initQueries (mgr w') = initQueries (mgr w)
       \<and> initQueriesExecuted (mgr w') = initQueriesExecuted (mgr w)
       \<and> initQueriesPromise (mgr w') = initQueriesPromise (mgr w)
       \<and> (connection (mgr w) \<noteq> None \<longrightarrow> connection (mgr w') \<noteq> None)"
    and tr: "\<exists>evs. trace w' = trace w @ evs \<and> setup_log evs = []
       \<and> list_all (\<lambda>e. \<not> is_user_submit e) evs"
    and ts: "(\<forall>t. next_id w' \<le> t \<longrightarrow> tasks w' t = None)
       \<and> (\<forall>u. tasks w' u = tasks w u \<or> (idle_before (tasks w u) \<and> idle_after (tasks w' u)))"
  shows "setup_inv qs w'"
proof -
  from tr obtain evs where evs: "trace w' = trace w @ evs" "setup_log evs = []"
    "list_all (\<lambda>e. \<not> is_user_submit e) evs" by blast
  have lg: "setup_log (trace w') = setup_log (trace w)"
    using evs by simp
  have same: "tasks w' u = tasks w u"
    if "tasks w u = Some (Running (SR_Await i q)) \<or> tasks w u = Some (Rejected e)" for u i q e
    using ts that idle_beforeD by metis
  have unchanged: "tasks w u = tasks w' u"
    if "tasks w' u = Some (Running (SR_Await i q)) \<or> tasks w' u = Some (Running (Q_AwaitSetup p sql))
       \<or> tasks w' u = Some (Running C_AwaitConnClose) \<or> tasks w' u = Some (Running C_AwaitTerminate)"
    for u i q p sql
    using ts that idle_afterD by metis
  have old_promise: "initQueriesExecuted (mgr w) \<or> (\<exists>i q. tasks w p = Some (Running (SR_Await i q)))
         \<or> (\<exists>e. tasks w p = Some (Rejected e))" if "initQueriesPromise (mgr w) = Some p" for p
    using inv that unfolding setup_inv_def by blast
  have c1: "initQueries (mgr w') = qs"
    using inv m unfolding setup_inv_def by simp
  have c2: "\<forall>t. next_id w' \<le> t \<longrightarrow> tasks w' t = None"
    using ts by blast
  have c3: "initQueriesExecuted (mgr w') \<longrightarrow> setup_log (trace w') = script qs"
    using inv m lg unfolding setup_inv_def by simp
  have c4: "\<not> initQueriesExecuted (mgr w') \<and> initQueriesPromise (mgr w') = None \<longrightarrow> setup_log (trace w') = []"
    using inv m lg unfolding setup_inv_def by simp
  have c5: "\<forall>p e. \<not> initQueriesExecuted (mgr w') \<and> initQueriesPromise (mgr w') = Some p
          \<and> tasks w' p = Some (Rejected e) \<longrightarrow> setup_log (trace w') = []"
  proof (intro allI impI)
    fix p e
    assume h: "\<not> initQueriesExecuted (mgr w') \<and> initQueriesPromise (mgr w') = Some p
          \<and> tasks w' p = Some (Rejected e)"
    then have "initQueriesPromise (mgr w) = Some p" "\<not> initQueriesExecuted (mgr w)"
      using m by simp_all
    with old_promise [of p] have "tasks w' p = tasks w p"
      using same by metis
    with h inv m lg show "setup_log (trace w') = []"
      unfolding setup_inv_def by metis
  qed
  have c6: "\<forall>r i q. tasks w' r = Some (Running (SR_Await i q)) \<longrightarrow>
         initQueriesPromise (mgr w') = Some r \<and> \<not> initQueriesExecuted (mgr w')
         \<and> i < length qs \<and> q = qs ! i \<and> connection (mgr w') \<noteq> None
         \<and> setup_log (trace w') = script (take i qs) @ [Submit (qs ! i)]"
  proof (intro allI impI)
    fix r i q
    assume h: "tasks w' r = Some (Running (SR_Await i q))"
    then have "tasks w r = Some (Running (SR_Await i q))"
      using unchanged by metis
    then have "initQueriesPromise (mgr w) = Some r \<and> \<not> initQueriesExecuted (mgr w)
         \<and> i < length qs \<and> q = qs ! i \<and> connection (mgr w) \<noteq> None
         \<and> setup_log (trace w) = script (take i qs) @ [Submit (qs ! i)]"
      using inv unfolding setup_inv_def by blast
    then show "initQueriesPromise (mgr w') = Some r \<and> \<not> initQueriesExecuted (mgr w')
         \<and> i < length qs \<and> q = qs ! i \<and> connection (mgr w') \<noteq> None
         \<and> setup_log (trace w') = script (take i qs) @ [Submit (qs ! i)]"
      using m lg by simp
  qed
  have new_promise: "initQueriesExecuted (mgr w') \<or> (\<exists>i q. tasks w' p = Some (Running (SR_Await i q)))
         \<or> (\<exists>e. tasks w' p = Some (Rejected e))"
    if "initQueriesExecuted (mgr w) \<or> (\<exists>i q. tasks w p = Some (Running (SR_Await i q)))
         \<or> (\<exists>e. tasks w p = Some (Rejected e))" for p
    using that m same by metis
  have c7: "\<forall>p. initQueriesPromise (mgr w') = Some p \<longrightarrow>
         initQueriesExecuted (mgr w') \<or> (\<exists>i q. tasks w' p = Some (Running (SR_Await i q)))
         \<or> (\<exists>e. tasks w' p = Some (Rejected e))"
    using old_promise new_promise m by metis
  have c8: "\<forall>t sql. tasks w' t = Some (Running (Q_AwaitSetup None sql)) \<longrightarrow> initQueriesExecuted (mgr w')"
  proof (intro allI impI)
    fix t sql
    assume "tasks w' t = Some (Running (Q_AwaitSetup None sql))"
    then have "tasks w t = Some (Running (Q_AwaitSetup None sql))"
      using unchanged by metis
    then show "initQueriesExecuted (mgr w')"
      using inv m unfolding setup_inv_def by metis
  qed
  have c9: "\<forall>t p sql. tasks w' t = Some (Running (Q_AwaitSetup (Some p) sql)) \<longrightarrow>
         initQueriesExecuted (mgr w') \<or> (\<exists>i q. tasks w' p = Some (Running (SR_Await i q)))
         \<or> (\<exists>e. tasks w' p = Some (Rejected e))"
  proof (intro allI impI)
    fix t p sql
    assume "tasks w' t = Some (Running (Q_AwaitSetup (Some p) sql))"
    then have "tasks w t = Some (Running (Q_AwaitSetup (Some p) sql))"
      using unchanged by metis
    then have "initQueriesExecuted (mgr w) \<or> (\<exists>i q. tasks w p = Some (Running (SR_Await i q)))
         \<or> (\<exists>e. tasks w p = Some (Rejected e))"
      using inv unfolding setup_inv_def by blast
    then show "initQueriesExecuted (mgr w') \<or> (\<exists>i q. tasks w' p = Some (Running (SR_Await i q)))
         \<or> (\<exists>e. tasks w' p = Some (Rejected e))"
      by (rule new_promise)
  qed
  have c10: "\<forall>t. tasks w' t \<noteq> Some (Running C_AwaitConnClose) \<and> tasks w' t \<noteq> Some (Running C_AwaitTerminate)"
  proof
    fix t
    have "tasks w t \<noteq> Some (Running C_AwaitConnClose) \<and> tasks w t \<noteq> Some (Running C_AwaitTerminate)"
      using inv unfolding setup_inv_def by blast
    then show "tasks w' t \<noteq> Some (Running C_AwaitConnClose) \<and> tasks w' t \<noteq> Some (Running C_AwaitTerminate)"
      using unchanged by metis
  qed
  have c11: "user_after_setup qs (trace w')"
    using inv evs user_after_setup_quiet unfolding setup_inv_def by simp
  show ?thesis
    unfolding setup_inv_def
    using c1 c2 c3 c4 c5 c6 c7 c8 c9 c10 c11 by blast
qed

lemma invD:
  assumes "setup_inv qs w"
  shows "initQueries (mgr w) = qs"
    and "next_id w \<le> u \<Longrightarrow> tasks w u = None"
    and "initQueriesExecuted (mgr w) \<Longrightarrow> setup_log (trace w) = script qs"
    and "\<not> initQueriesExecuted (mgr w) \<Longrightarrow> initQueriesPromise (mgr w) = None \<Longrightarrow> setup_log (trace w) = []"
    and "\<not> initQueriesExecuted (mgr w) \<Longrightarrow> initQueriesPromise (mgr w) = Some p
          \<Longrightarrow> tasks w p = Some (Rejected e) \<Longrightarrow> setup_log (trace w) = []"
    and "tasks w r = Some (Running (SR_Await i q)) \<Longrightarrow>
         initQueriesPromise (mgr w) = Some r \<and> \<not> initQueriesExecuted (mgr w)
         \<and> i < length qs \<and> q = qs ! i \<and> connection (mgr w) \<noteq> None
         \<and> setup_log (trace w) = script (take i qs) @ [Submit (qs ! i)]"
    and "initQueriesPromise (mgr w) = Some p \<Longrightarrow> waiting_ok w p"
    and "tasks w t = Some (Running (Q_AwaitSetup None sql)) \<Longrightarrow> initQueriesExecuted (mgr w)"
    and "tasks w t = Some (Running (Q_AwaitSetup (Some p) sql)) \<Longrightarrow> waiting_ok w p"
    and "tasks w u \<noteq> Some (Running C_AwaitConnClose)"
    and "tasks w u \<noteq> Some (Running C_AwaitTerminate)"
    and "user_after_setup qs (trace w)"
  using assms unfolding setup_inv_def waiting_ok_def by blast+

lemma invI:
  assumes "initQueries (mgr w) = qs"
    and "\<And>u. next_id w \<le> u \<Longrightarrow> tasks w u = None"
    and "initQueriesExecuted (mgr w) \<Longrightarrow> setup_log (trace w) = script qs"
    and "\<not> initQueriesExecuted (mgr w) \<Longrightarrow> initQueriesPromise (mgr w) = None \<Longrightarrow> setup_log (trace w) = []"
    and "\<And>p e. \<not> initQueriesExecuted (mgr w) \<Longrightarrow> initQueriesPromise (mgr w) = Some p
          \<Longrightarrow> tasks w p = Some (Rejected e) \<Longrightarrow> setup_log (trace w) = []"
    and "\<And>r i q. tasks w r = Some (Running (SR_Await i q)) \<Longrightarrow>
         initQueriesPromise (mgr w) = Some r \<and> \<not> initQueriesExecuted (mgr w)
         \<and> i < length qs \<and> q = qs ! i \<and> connection (mgr w) \<noteq> None
         \<and> setup_log (trace w) = script (take i qs) @ [Submit (qs ! i)]"
    and "\<And>p. initQueriesPromise (mgr w) = Some p \<Longrightarrow> waiting_ok w p"
    and "\<And>t sql. tasks w t = Some (Running (Q_AwaitSetup None sql)) \<Longrightarrow> initQueriesExecuted (mgr w)"
    and "\<And>t p sql. tasks w t = Some (Running (Q_AwaitSetup (Some p) sql)) \<Longrightarrow> waiting_ok w p"
    and "\<And>u. tasks w u \<noteq> Some (Running C_AwaitConnClose)"
    and "\<And>u. tasks w u \<noteq> Some (Running C_AwaitTerminate)"
    and "user_after_setup qs (trace w)"
  shows "setup_inv qs w"
  unfolding setup_inv_def waiting_ok_def [symmetric]
  using assms by blast

lemma waiting_ok_exec: "initQueriesExecuted (mgr w) \<Longrightarrow> waiting_ok w p"
  by (simp add: waiting_ok_def)

lemma waiting_ok_idle:
  "waiting_ok w p \<Longrightarrow> tasks w p = Some (Running pcx) \<Longrightarrow> \<forall>i q. pcx \<noteq> SR_Await i q
     \<Longrightarrow> initQueriesExecuted (mgr w)"
  by (auto simp: waiting_ok_def)

text \<open>Task t, which is not a setup run, takes a new state; nothing else changes.\<close>

lemma inv_retask:
  assumes inv: "setup_inv qs w"
    and pc: "tasks w t = Some (Running pcx)" and idle: "\<forall>i q. pcx \<noteq> SR_Await i q"
    and m: "mgr w' = mgr w" and n: "next_id w' = next_id w" and tr: "trace w' = trace w"
    and ts: "tasks w' = (tasks w)(t \<mapsto> X)"
    and x1: "\<forall>i q. X \<noteq> Running (SR_Await i q)"
    and x2: "X \<noteq> Running C_AwaitConnClose" "X \<noteq> Running C_AwaitTerminate"
    and x3: "\<forall>sql. X = Running (Q_AwaitSetup None sql) \<longrightarrow> initQueriesExecuted (mgr w)"
    and x4: "\<forall>p sql. X = Running (Q_AwaitSetup (Some p) sql) \<longrightarrow> waiting_ok w p"
  shows "setup_inv qs w'"
proof (rule invI)
  note D = invD [OF inv]
  have tex: "initQueriesExecuted (mgr w)" if "waiting_ok w t"
    using that pc idle by (rule waiting_ok_idle)
  have keep: "waiting_ok w' p" if "waiting_ok w p" for p
  proof (cases "p = t")
    case True
    then show ?thesis using tex that by (simp add: waiting_ok_def m)
  next
    case False
    then show ?thesis using that by (auto simp: waiting_ok_def m ts)
  qed
  show "initQueries (mgr w') = qs" using D(1) by (simp add: m)
  show "tasks w' u = None" if "next_id w' \<le> u" for u
    using that D(2) [of u] D(2) [of t] pc by (auto simp: ts n)
  show "setup_log (trace w') = script qs" if "initQueriesExecuted (mgr w')"
    using that D(3) by (simp add: m tr)
  show "setup_log (trace w') = []"
    if "\<not> initQueriesExecuted (mgr w')" "initQueriesPromise (mgr w') = None"
    using that D(4) by (simp add: m tr)
  show "setup_log (trace w') = []"
    if h: "\<not> initQueriesExecuted (mgr w')" "initQueriesPromise (mgr w') = Some p"
      "tasks w' p = Some (Rejected e)" for p e
  proof (cases "p = t")
    case True
    then have "waiting_ok w t" using D(7) h(2) by (simp add: m)
    then show ?thesis using tex h(1) by (simp add: m)
  next
    case False
    then show ?thesis using h D(5) [of p e] by (simp add: m tr ts)
  qed
  show "initQueriesPromise (mgr w') = Some r \<and> \<not> initQueriesExecuted (mgr w')
         \<and> i < length qs \<and> q = qs ! i \<and> connection (mgr w') \<noteq> None
         \<and> setup_log (trace w') = script (take i qs) @ [Submit (qs ! i)]"
    if "tasks w' r = Some (Running (SR_Await i q))" for r i q
  proof -
    have "r \<noteq> t" using that x1 by (auto simp: ts)
    then have "tasks w r = Some (Running (SR_Await i q))" using that by (simp add: ts)
    from D(6) [OF this] show ?thesis by (simp add: m tr)
  qed
  show "waiting_ok w' p" if "initQueriesPromise (mgr w') = Some p" for p
    using that D(7) [of p] keep by (simp add: m)
  show "initQueriesExecuted (mgr w')" if "tasks w' u = Some (Running (Q_AwaitSetup None sql))" for u sql
    using that x3 D(8) [of u sql] by (auto simp: ts m split: if_splits)
  show "waiting_ok w' p" if "tasks w' u = Some (Running (Q_AwaitSetup (Some p) sql))" for u p sql
  proof -
    have "waiting_ok w p"
      using that x4 D(9) [of u p sql] by (auto simp: ts split: if_splits)
    then show ?thesis by (rule keep)
  qed
  show "tasks w' u \<noteq> Some (Running C_AwaitConnClose)" for u
    using x2 D(10) [of u] by (auto simp: ts)
  show "tasks w' u \<noteq> Some (Running C_AwaitTerminate)" for u
    using x2 D(11) [of u] by (auto simp: ts)
  show "user_after_setup qs (trace w')" using D(12) by (simp add: tr)
qed

text \<open>No setup statement is configured: the flag is set and the query goes on.\<close>

lemma inv_no_setup:
  assumes inv: "setup_inv qs w"
    and pc: "tasks w t = Some (Running pcx)" and idle: "\<forall>i q. pcx \<noteq> SR_Await i q"
    and pre: "initQueriesPromise (mgr w) = None" "qs = []"
    and m: "mgr w' = (mgr w)\<lparr>initQueriesExecuted := True\<rparr>"
    and n: "next_id w' = next_id w" and tr: "trace w' = trace w"
    and ts: "tasks w' = (tasks w)(t \<mapsto> Running (Q_AwaitSetup None sql))"
  shows "setup_inv qs w'"
proof (rule invI)
  note D = invD [OF inv]
  have norun: "tasks w r \<noteq> Some (Running (SR_Await i q))" for r i q
    using D(6) [of r i q] pre(1) by auto
  have lg: "setup_log (trace w) = []"
    using D(3) D(4) pre by (cases "initQueriesExecuted (mgr w)") simp_all
  show "initQueries (mgr w') = qs" using D(1) by (simp add: m)
  show "tasks w' u = None" if "next_id w' \<le> u" for u
    using that D(2) [of u] D(2) [of t] pc by (auto simp: ts n)
  show "setup_log (trace w') = script qs" if "initQueriesExecuted (mgr w')"
    using lg pre(2) by (simp add: tr)
  show "setup_log (trace w') = []"
    if "\<not> initQueriesExecuted (mgr w')" "initQueriesPromise (mgr w') = None"
    using that by (simp add: m)
  show "setup_log (trace w') = []"
    if h: "\<not> initQueriesExecuted (mgr w')" "initQueriesPromise (mgr w') = Some p"
      "tasks w' p = Some (Rejected e)" for p e
    using h by (simp add: m)
  show "initQueriesPromise (mgr w') = Some r \<and> \<not> initQueriesExecuted (mgr w')
         \<and> i < length qs \<and> q = qs ! i \<and> connection (mgr w') \<noteq> None
         \<and> setup_log (trace w') = script (take i qs) @ [Submit (qs ! i)]"
    if "tasks w' r = Some (Running (SR_Await i q))" for r i q
    using that norun [of r i q] by (auto simp: ts split: if_splits)
  show "waiting_ok w' p" if "initQueriesPromise (mgr w') = Some p" for p
    by (rule waiting_ok_exec) (simp add: m)
  show "initQueriesExecuted (mgr w')" if "tasks w' u = Some (Running (Q_AwaitSetup None sql'))" for u sql'
    by (simp add: m)
  show "waiting_ok w' p" if "tasks w' u = Some (Running (Q_AwaitSetup (Some p) sql'))" for u p sql'
    by (rule waiting_ok_exec) (simp add: m)
  show "tasks w' u \<noteq> Some (Running C_AwaitConnClose)" for u
    using D(10) [of u] by (auto simp: ts)
  show "tasks w' u \<noteq> Some (Running C_AwaitTerminate)" for u
    using D(11) [of u] by (auto simp: ts)
  show "user_after_setup qs (trace w')" using D(12) by (simp add: tr)
qed

text \<open>
  A setup run is created as task r and stored as the promise; the query t awaits it. The run
  has either submitted the first statement, or has thrown at once for want of a connection.
\<close>

lemma inv_runner_start:
  assumes inv: "setup_inv qs w"
    and pc: "tasks w t = Some (Running pcx)" and idle: "\<forall>i q. pcx \<noteq> SR_Await i q"
    and pre: "\<not> initQueriesExecuted (mgr w)" "initQueriesPromise (mgr w) = None" "qs \<noteq> []"
    and r: "r = next_id w"
    and m: "mgr w' = (mgr w)\<lparr>initQueriesPromise := Some r\<rparr>"
    and n: "next_id w' = Suc r"
    and ts: "tasks w' = (tasks w)(r \<mapsto> Y, t \<mapsto> Running (Q_AwaitSetup (Some r) sql))"
    and y: "(connection (mgr w) = None \<and> Y = Rejected msg \<and> trace w' = trace w)
          \<or> (\<exists>c. connection (mgr w) = Some c \<and> Y = Running (SR_Await 0 (qs ! 0))
                \<and> trace w' = trace w @ [EvConnQuery c Setup (qs ! 0)])"
  shows "setup_inv qs w'"
proof (rule invI)
  note D = invD [OF inv]
  have tr: "t \<noteq> r" using D(2) [of t] pc r by auto
  have norun: "tasks w u \<noteq> Some (Running (SR_Await i q))" for u i q
    using D(6) [of u i q] pre(2) by auto
  have lg: "setup_log (trace w) = []"
    using D(4) pre by simp
  have yr: "tasks w' r = Some Y" using tr by (simp add: ts)
  have wok: "waiting_ok w' r"
    using y yr by (auto simp: waiting_ok_def)
  have tex: "\<not> waiting_ok w t"
    using pc idle pre(1) waiting_ok_idle by blast
  have keep: "waiting_ok w' p" if "waiting_ok w p" for p
  proof -
    have "p \<noteq> t" using that tex by auto
    moreover have "p \<noteq> r" using that D(2) [of r] r pre(1) by (auto simp: waiting_ok_def)
    ultimately show ?thesis using that pre(1) by (auto simp: waiting_ok_def ts m)
  qed
  show "initQueries (mgr w') = qs" using D(1) by (simp add: m)
  show "tasks w' u = None" if "next_id w' \<le> u" for u
    using that D(2) [of u] D(2) [of t] pc r by (auto simp: ts n)
  show "setup_log (trace w') = script qs" if "initQueriesExecuted (mgr w')"
    using that pre(1) by (simp add: m)
  show "setup_log (trace w') = []"
    if "\<not> initQueriesExecuted (mgr w')" "initQueriesPromise (mgr w') = None"
    using that by (simp add: m)
  show "setup_log (trace w') = []"
    if h: "\<not> initQueriesExecuted (mgr w')" "initQueriesPromise (mgr w') = Some p"
      "tasks w' p = Some (Rejected e)" for p e
  proof -
    have "p = r" using h(2) by (simp add: m)
    then have "Y = Rejected e" using h(3) yr by simp
    then show ?thesis using y lg by auto
  qed
  show "initQueriesPromise (mgr w') = Some u \<and> \<not> initQueriesExecuted (mgr w')
         \<and> i < length qs \<and> q = qs ! i \<and> connection (mgr w') \<noteq> None
         \<and> setup_log (trace w') = script (take i qs) @ [Submit (qs ! i)]"
    if h: "tasks w' u = Some (Running (SR_Await i q))" for u i q
  proof -
    have "u \<noteq> t" using h by (auto simp: ts)
    moreover have "u = r" using h norun [of u i q] \<open>u \<noteq> t\<close> by (auto simp: ts split: if_splits)
    ultimately have "Y = Running (SR_Await i q)" using h yr by simp
    then show ?thesis using y pre lg \<open>u = r\<close> by (auto simp: m)
  qed
  show "waiting_ok w' p" if "initQueriesPromise (mgr w') = Some p" for p
    using that wok by (simp add: m)
  show "initQueriesExecuted (mgr w')" if "tasks w' u = Some (Running (Q_AwaitSetup None sql'))" for u sql'
  proof -
    have "tasks w u = Some (Running (Q_AwaitSetup None sql'))"
      using that y by (auto simp: ts split: if_splits)
    then show ?thesis using D(8) pre(1) by blast
  qed
  show "waiting_ok w' p" if h: "tasks w' u = Some (Running (Q_AwaitSetup (Some p) sql'))" for u p sql'
  proof (cases "u = t")
    case True
    then have "p = r" using h by (simp add: ts)
    then show ?thesis using wok by simp
  next
    case False
    then have "tasks w u = Some (Running (Q_AwaitSetup (Some p) sql'))"
      using h y by (auto simp: ts split: if_splits)
    then show ?thesis using D(9) keep by blast
  qed
  show "tasks w' u \<noteq> Some (Running C_AwaitConnClose)" for u
    using D(10) [of u] y by (auto simp: ts)
  show "tasks w' u \<noteq> Some (Running C_AwaitTerminate)" for u
    using D(11) [of u] y by (auto simp: ts)
  show "user_after_setup qs (trace w')"
    using D(12) y by (auto simp: user_after_setup_snoc)
qed

text \<open>A query whose wait for setup has ended submits its statement.\<close>

lemma inv_submit:
  assumes inv: "setup_inv qs w"
    and pc: "tasks w t = Some (Running (Q_AwaitSetup rr sql))"
    and ex: "initQueriesExecuted (mgr w)"
    and m: "mgr w' = mgr w" and n: "next_id w' = next_id w"
    and tr: "trace w' = trace w @ [EvConnQuery c User sql]"
    and ts: "tasks w' = (tasks w)(t \<mapsto> Running (Q_AwaitResult t0 sql))"
  shows "setup_inv qs w'"
proof (rule invI)
  note D = invD [OF inv]
  have norun: "tasks w u \<noteq> Some (Running (SR_Await i q))" for u i q
    using D(6) [of u i q] ex by auto
  show "initQueries (mgr w') = qs" using D(1) by (simp add: m)
  show "tasks w' u = None" if "next_id w' \<le> u" for u
    using that D(2) [of u] D(2) [of t] pc by (auto simp: ts n)
  show "setup_log (trace w') = script qs" if "initQueriesExecuted (mgr w')"
    using D(3) ex by (simp add: tr)
  show "setup_log (trace w') = []"
    if "\<not> initQueriesExecuted (mgr w')" "initQueriesPromise (mgr w') = None"
    using that ex by (simp add: m)
  show "setup_log (trace w') = []"
    if h: "\<not> initQueriesExecuted (mgr w')" "initQueriesPromise (mgr w') = Some p"
      "tasks w' p = Some (Rejected e)" for p e
    using h ex by (simp add: m)
  show "initQueriesPromise (mgr w') = Some r \<and> \<not> initQueriesExecuted (mgr w')
         \<and> i < length qs \<and> q = qs ! i \<and> connection (mgr w') \<noteq> None
         \<and> setup_log (trace w') = script (take i qs) @ [Submit (qs ! i)]"
    if "tasks w' r = Some (Running (SR_Await i q))" for r i q
    using that norun [of r i q] by (auto simp: ts split: if_splits)
  show "waiting_ok w' p" if "initQueriesPromise (mgr w') = Some p" for p
    by (rule waiting_ok_exec) (simp add: m ex)
  show "initQueriesExecuted (mgr w')" if "tasks w' u = Some (Running (Q_AwaitSetup None sql'))" for u sql'
    by (simp add: m ex)
  show "waiting_ok w' p" if "tasks w' u = Some (Running (Q_AwaitSetup (Some p) sql'))" for u p sql'
    by (rule waiting_ok_exec) (simp add: m ex)
  show "tasks w' u \<noteq> Some (Running C_AwaitConnClose)" for u
    using D(10) [of u] by (auto simp: ts)
  show "tasks w' u \<noteq> Some (Running C_AwaitTerminate)" for u
    using D(11) [of u] by (auto simp: ts)
  show "user_after_setup qs (trace w')"
    using D(12) D(3) ex by (simp add: tr user_after_setup_snoc)
qed

text \<open>The engine accepts statement i; the run submits statement i + 1, or ends and sets the flag.\<close>

lemma inv_runner_next:
  assumes inv: "setup_inv qs w" and pc: "tasks w t = Some (Running (SR_Await i q))"
    and nxt: "Suc i < length qs"
    and m: "mgr w' = mgr w" and n: "next_id w' = next_id w"
    and ts: "tasks w' = (tasks w)(t \<mapsto> Running (SR_Await (Suc i) (qs ! Suc i)))"
    and tr: "trace w' = trace w @ [EvQueryResult Setup q True, EvConnQuery c Setup (qs ! Suc i)]"
  shows "setup_inv qs w'"
proof (rule invI)
  note D = invD [OF inv]
  have facts: "initQueriesPromise (mgr w) = Some t" "\<not> initQueriesExecuted (mgr w)" "i < length qs"
    "q = qs ! i" "connection (mgr w) \<noteq> None"
    "setup_log (trace w) = script (take i qs) @ [Submit (qs ! i)]"
    using D(6) [OF pc] by simp_all
  have uniq: "u = t" if "tasks w u = Some (Running (SR_Await j q'))" for u j q'
    using D(6) [OF that] facts(1) by simp
  have lg: "setup_log (trace w') = script (take (Suc i) qs) @ [Submit (qs ! Suc i)]"
    using facts by (simp add: tr script_take_Suc)
  have keep: "waiting_ok w' p" if "waiting_ok w p" for p
    using that facts(2) by (auto simp: waiting_ok_def ts m)
  show "initQueries (mgr w') = qs" using D(1) by (simp add: m)
  show "tasks w' u = None" if "next_id w' \<le> u" for u
    using that D(2) [of u] D(2) [of t] pc by (auto simp: ts n)
  show "setup_log (trace w') = script qs" if "initQueriesExecuted (mgr w')"
    using that facts(2) by (simp add: m)
  show "setup_log (trace w') = []"
    if "\<not> initQueriesExecuted (mgr w')" "initQueriesPromise (mgr w') = None"
    using that facts(1) by (simp add: m)
  show "setup_log (trace w') = []"
    if h: "\<not> initQueriesExecuted (mgr w')" "initQueriesPromise (mgr w') = Some p"
      "tasks w' p = Some (Rejected e)" for p e
    using h facts(1) by (simp add: m ts)
  show "initQueriesPromise (mgr w') = Some u \<and> \<not> initQueriesExecuted (mgr w')
         \<and> j < length qs \<and> q' = qs ! j \<and> connection (mgr w') \<noteq> None
         \<and> setup_log (trace w') = script (take j qs) @ [Submit (qs ! j)]"
    if h: "tasks w' u = Some (Running (SR_Await j q'))" for u j q'
  proof (cases "u = t")
    case True
    then have "j = Suc i" "q' = qs ! Suc i" using h by (auto simp: ts)
    then show ?thesis using True facts nxt lg by (simp add: m)
  next
    case False
    then have "tasks w u = Some (Running (SR_Await j q'))" using h by (simp add: ts)
    then show ?thesis using uniq False by blast
  qed
  show "waiting_ok w' p" if "initQueriesPromise (mgr w') = Some p" for p
    using that D(7) [of p] keep by (simp add: m)
  show "initQueriesExecuted (mgr w')" if "tasks w' u = Some (Running (Q_AwaitSetup None sql))" for u sql
    using that D(8) [of u sql] by (auto simp: ts m split: if_splits)
  show "waiting_ok w' p" if "tasks w' u = Some (Running (Q_AwaitSetup (Some p) sql))" for u p sql
  proof -
    have "waiting_ok w p"
      using that D(9) [of u p sql] by (auto simp: ts split: if_splits)
    then show ?thesis by (rule keep)
  qed
  show "tasks w' u \<noteq> Some (Running C_AwaitConnClose)" for u
    using D(10) [of u] by (auto simp: ts)
  show "tasks w' u \<noteq> Some (Running C_AwaitTerminate)" for u
    using D(11) [of u] by (auto simp: ts)
  show "user_after_setup qs (trace w')"
    using D(12) user_after_setup_quiet [of qs "trace w"
        "[EvQueryResult Setup q True, EvConnQuery c Setup (qs ! Suc i)]"]
    by (simp add: tr)
qed

lemma inv_runner_done:
  assumes inv: "setup_inv qs w" and pc: "tasks w t = Some (Running (SR_Await i q))"
    and nxt: "\<not> Suc i < length qs"
    and m: "mgr w' = (mgr w)\<lparr>initQueriesExecuted := True\<rparr>" and n: "next_id w' = next_id w"
    and ts: "tasks w' = (tasks w)(t \<mapsto> Fulfilled RVoid)"
    and tr: "trace w' = trace w @ [EvQueryResult Setup q True]"
  shows "setup_inv qs w'"
proof (rule invI)
  note D = invD [OF inv]
  have facts: "initQueriesPromise (mgr w) = Some t" "\<not> initQueriesExecuted (mgr w)" "i < length qs"
    "q = qs ! i" "connection (mgr w) \<noteq> None"
    "setup_log (trace w) = script (take i qs) @ [Submit (qs ! i)]"
    using D(6) [OF pc] by simp_all
  have uniq: "u = t" if "tasks w u = Some (Running (SR_Await j q'))" for u j q'
    using D(6) [OF that] facts(1) by simp
  have all: "take (Suc i) qs = qs"
    using nxt by simp
  have lg: "setup_log (trace w') = script qs"
    using facts script_take_Suc [of i qs] all by (simp add: tr)
  show "initQueries (mgr w') = qs" using D(1) by (simp add: m)
  show "tasks w' u = None" if "next_id w' \<le> u" for u
    using that D(2) [of u] D(2) [of t] pc by (auto simp: ts n)
  show "setup_log (trace w') = script qs" if "initQueriesExecuted (mgr w')"
    by (rule lg)
  show "setup_log (trace w') = []"
    if "\<not> initQueriesExecuted (mgr w')" "initQueriesPromise (mgr w') = None"
    using that by (simp add: m)
  show "setup_log (trace w') = []"
    if h: "\<not> initQueriesExecuted (mgr w')" "initQueriesPromise (mgr w') = Some p"
      "tasks w' p = Some (Rejected e)" for p e
    using h by (simp add: m)
  show "initQueriesPromise (mgr w') = Some u \<and> \<not> initQueriesExecuted (mgr w')
         \<and> j < length qs \<and> q' = qs ! j \<and> connection (mgr w') \<noteq> None
         \<and> setup_log (trace w') = script (take j qs) @ [Submit (qs ! j)]"
    if h: "tasks w' u = Some (Running (SR_Await j q'))" for u j q'
  proof -
    have "u \<noteq> t" using h by (auto simp: ts)
    then have "tasks w u = Some (Running (SR_Await j q'))" using h by (simp add: ts)
    then show ?thesis using uniq \<open>u \<noteq> t\<close> by blast
  qed
  show "waiting_ok w' p" if "initQueriesPromise (mgr w') = Some p" for p
    by (rule waiting_ok_exec) (simp add: m)
  show "initQueriesExecuted (mgr w')" if "tasks w' u = Some (Running (Q_AwaitSetup None sql))" for u sql
    by (simp add: m)
  show "waiting_ok w' p" if "tasks w' u = Some (Running (Q_AwaitSetup (Some p) sql))" for u p sql
    by (rule waiting_ok_exec) (simp add: m)
  show "tasks w' u \<noteq> Some (Running C_AwaitConnClose)" for u
    using D(10) [of u] by (auto simp: ts)
  show "tasks w' u \<noteq> Some (Running C_AwaitTerminate)" for u
    using D(11) [of u] by (auto simp: ts)
  show "user_after_setup qs (trace w')"
    using D(12) user_after_setup_quiet [of qs "trace w" "[EvQueryResult Setup q True]"]
    by (simp add: tr)
qed

lemma inv_sr_await:
  assumes inv: "setup_inv qs w" and pc: "tasks w t = Some (Running (SR_Await i q))"
    and ok: "no_reject_ev (trace (sr_await t i q oc w))"
  shows "setup_inv qs (sr_await t i q oc w)"
proof -
  note D = invD [OF inv]
  have facts: "i < length qs" "connection (mgr w) \<noteq> None" "initQueries (mgr w) = qs"
    using D(6) [OF pc] D(1) by simp_all
  show ?thesis
  proof (cases oc)
    case (Fail e)
    then have "Answer q False \<in> set (setup_log (trace (sr_await t i q oc w)))"
      by (simp add: sr_await_def setup_catch_def set_task_def upd_def emit_def)
    then show ?thesis using ok by (simp add: no_reject_ev_def)
  next
    case (FailValue e)
    then have "Answer q False \<in> set (setup_log (trace (sr_await t i q oc w)))"
      by (simp add: sr_await_def setup_catch_def set_task_def upd_def emit_def)
    then show ?thesis using ok by (simp add: no_reject_ev_def)
  next
    case (Ok pl)
    show ?thesis
    proof (cases pl)
      case (PTable tb)
      obtain c where c: "connection (mgr w) = Some c"
        using facts(2) by blast
      show ?thesis
      proof (cases "Suc i < length qs")
        case True
        show ?thesis
          using inv pc True
        proof (rule inv_runner_next)
          show "trace (sr_await t i q oc w)
              = trace w @ [EvQueryResult Setup q True, EvConnQuery c Setup (qs ! Suc i)]"
            using Ok PTable c True facts(3)
            by (simp add: sr_await_def setup_loop_def set_task_def upd_def emit_def say_def Let_def)
        qed (use Ok PTable c True facts(3) in
            \<open>simp_all add: sr_await_def setup_loop_def set_task_def upd_def emit_def say_def Let_def\<close>)
      next
        case False
        show ?thesis
          using inv pc False
        proof (rule inv_runner_done)
          show "trace (sr_await t i q oc w) = trace w @ [EvQueryResult Setup q True]"
            using Ok PTable c False facts(3)
            by (simp add: sr_await_def setup_loop_def set_task_def upd_def emit_def say_def Let_def)
        qed (use Ok PTable c False facts(3) in
            \<open>simp_all add: sr_await_def setup_loop_def set_task_def upd_def emit_def say_def Let_def\<close>)
      qed
    qed (use inv Ok in \<open>simp_all add: sr_await_def\<close>)
  qed
qed

lemma inv_q_after_setup:
  assumes inv: "setup_inv qs w" and pc: "tasks w t = Some (Running (Q_AwaitSetup r sql))"
  shows "setup_inv qs (q_after_setup t r sql w)"
proof -
  note D = invD [OF inv]
  have rej: "setup_inv qs (set_task t (Rejected e) w)" for e
    using inv pc by (rule inv_retask [where X = "Rejected e"]) (simp_all add: set_task_def)
  show ?thesis
  proof (cases "awaited w r")
    case Pending
    then show ?thesis using inv by (simp add: q_after_setup_def)
  next
    case (Thrown e)
    then show ?thesis using rej by (simp add: q_after_setup_def)
  next
    case Resolved
    have ex: "initQueriesExecuted (mgr w)"
    proof (cases r)
      case None
      then show ?thesis using D(8) pc by blast
    next
      case (Some p)
      then have "waiting_ok w p" using D(9) pc by blast
      then show ?thesis
        using Resolved Some by (auto simp: awaited_def waiting_ok_def)
    qed
    show ?thesis
    proof (cases "connection (mgr w)")
      case None
      then show ?thesis using rej Resolved by (simp add: q_after_setup_def)
    next
      case (Some c)
      have "setup_inv qs (set_task t (Running (Q_AwaitResult (now w) sql))
          (emit (EvConnQuery c User sql) w))"
        using inv pc ex by (rule inv_submit) (simp_all add: set_task_def emit_def)
      then show ?thesis using Resolved Some by (simp add: q_after_setup_def)
    qed
  qed
qed

lemma inv_q_after_init:
  assumes inv: "setup_inv qs w" and pc: "tasks w t = Some (Running (Q_AwaitInit p sql))"
  shows "setup_inv qs (q_after_init t p sql w)"
proof (cases "awaited w p")
  case Pending
  then show ?thesis using inv by (simp add: q_after_init_def)
next
  case (Thrown e)
  have "setup_inv qs (set_task t (Rejected e) w)"
    using inv pc by (rule inv_retask [where X = "Rejected e"]) (simp_all add: set_task_def)
  then show ?thesis using Thrown by (simp add: q_after_init_def)
next
  case Resolved
  note D = invD [OF inv]
  show ?thesis
  proof (cases "initQueriesExecuted (mgr w)")
    case True
    have "setup_inv qs (set_task t (Running (Q_AwaitSetup None sql)) w)"
      using inv pc
      by (rule inv_retask [where X = "Running (Q_AwaitSetup None sql)"])
        (simp_all add: set_task_def True)
    then show ?thesis
      using Resolved True by (simp add: q_after_init_def executeInitQueries_def)
  next
    case nexec: False
    show ?thesis
    proof (cases "initQueriesPromise (mgr w)")
      case (Some r)
      have "setup_inv qs (set_task t (Running (Q_AwaitSetup (Some r) sql)) w)"
        using inv pc
        by (rule inv_retask [where X = "Running (Q_AwaitSetup (Some r) sql)"])
          (use D(7) Some in \<open>simp_all add: set_task_def\<close>)
      then show ?thesis
        using Resolved nexec Some by (simp add: q_after_init_def executeInitQueries_def)
    next
      case None
      show ?thesis
      proof (cases "qs = []")
        case True
        have "setup_inv qs (set_task t (Running (Q_AwaitSetup None sql))
            (upd (\<lambda>m. m\<lparr>initQueriesExecuted := True\<rparr>) w))"
          using inv pc _ None True by (rule inv_no_setup) (simp_all add: set_task_def upd_def)
        then show ?thesis
          using Resolved nexec None True D(1)
          by (simp add: q_after_init_def executeInitQueries_def)
      next
        case False
        have ne: "initQueries (mgr w) \<noteq> []" "0 < length (initQueries (mgr w))"
          using False D(1) by simp_all
        note defs = q_after_init_def executeInitQueries_def setup_loop_def setup_catch_def
          fresh_def set_task_def upd_def say_def emit_def Let_def
        have "setup_inv qs (q_after_init t p sql w)"
        proof (cases "connection (mgr w)")
          case cn: None
          show ?thesis
            using inv pc _ nexec None False refl
          proof (rule inv_runner_start)
            show "(connection (mgr w) = None
                  \<and> Rejected (''Initialization query failed: '' @ null_property ''query'')
                      = Rejected (''Initialization query failed: '' @ null_property ''query'')
                  \<and> trace (q_after_init t p sql w) = trace w)
                \<or> (\<exists>c. connection (mgr w) = Some c
                  \<and> Rejected (''Initialization query failed: '' @ null_property ''query'')
                      = Running (SR_Await 0 (qs ! 0))
                  \<and> trace (q_after_init t p sql w) = trace w @ [EvConnQuery c Setup (qs ! 0)])"
              using Resolved nexec None ne cn by (simp add: defs)
            show "tasks (q_after_init t p sql w)
                = (tasks w)(next_id w \<mapsto>
                       Rejected (''Initialization query failed: '' @ null_property ''query''),
                     t \<mapsto> Running (Q_AwaitSetup (Some (next_id w)) sql))"
              using Resolved nexec None ne cn by (simp add: defs)
          qed (use Resolved nexec None ne cn in \<open>simp_all add: defs\<close>)
        next
          case cs: (Some c)
          show ?thesis
            using inv pc _ nexec None False refl
          proof (rule inv_runner_start)
            show "(connection (mgr w) = None
                  \<and> Running (SR_Await 0 (qs ! 0)) = Rejected []
                  \<and> trace (q_after_init t p sql w) = trace w)
                \<or> (\<exists>c. connection (mgr w) = Some c
                  \<and> Running (SR_Await 0 (qs ! 0)) = Running (SR_Await 0 (qs ! 0))
                  \<and> trace (q_after_init t p sql w) = trace w @ [EvConnQuery c Setup (qs ! 0)])"
              using Resolved nexec None ne cs D(1) by (simp add: defs)
            show "tasks (q_after_init t p sql w)
                = (tasks w)(next_id w \<mapsto> Running (SR_Await 0 (qs ! 0)),
                     t \<mapsto> Running (Q_AwaitSetup (Some (next_id w)) sql))"
              using Resolved nexec None ne cs D(1) by (simp add: defs)
          qed (use Resolved nexec None ne cs in \<open>simp_all add: defs\<close>)
        qed
        then show ?thesis .
      qed
    qed
  qed
qed

lemma quiet_refl: "tasks w t = Some (Running pcx) \<Longrightarrow> \<not> setup_pc pcx \<Longrightarrow> quiet t w w"
  by (cases pcx) (auto simp: quiet_def added_def)

lemma quiet_di_got_module: "quiet t w (di_got_module t m w)"
  by (simp add: quiet_def added_def di_got_module_def basic_defs)

lemma quiet_di_import:
  "tasks w t = Some (Running DI_AwaitImport) \<Longrightarrow> quiet t w (di_import t oc w)"
  by (auto simp: quiet_def added_def di_import_def basic_defs split: outcome.splits payload.splits)

lemma quiet_di_cdn_import:
  "tasks w t = Some (Running (DI_AwaitCdnImport e)) \<Longrightarrow> quiet t w (di_cdn_import t e oc w)"
  by (auto simp: quiet_def added_def di_cdn_import_def basic_defs
      split: outcome.splits payload.splits)

lemma quiet_di_select_bundle:
  "tasks w t = Some (Running (DI_AwaitSelectBundle m)) \<Longrightarrow> quiet t w (di_select_bundle t m oc w)"
  by (auto simp: quiet_def added_def di_select_bundle_def basic_defs
      split: outcome.splits payload.splits)

lemma quiet_di_fetch:
  "tasks w t = Some (Running (DI_AwaitFetch m b)) \<Longrightarrow> quiet t w (di_fetch t m b oc w)"
  by (auto simp: quiet_def added_def di_fetch_def basic_defs split: outcome.splits payload.splits)

lemma quiet_di_blob:
  "tasks w t = Some (Running (DI_AwaitBlob m b)) \<Longrightarrow> quiet t w (di_blob t m b oc w)"
  by (auto simp: quiet_def added_def di_blob_def basic_defs split: outcome.splits payload.splits)

lemma quiet_di_instantiate:
  "tasks w t = Some (Running DI_AwaitInstantiate) \<Longrightarrow> quiet t w (di_instantiate t oc w)"
  by (auto simp: quiet_def added_def di_instantiate_def basic_defs
      split: outcome.splits payload.splits option.splits)

lemma quiet_di_connect:
  "tasks w t = Some (Running DI_AwaitConnect) \<Longrightarrow> quiet t w (di_connect t oc w)"
  by (auto simp: quiet_def added_def di_connect_def basic_defs split: outcome.splits payload.splits)

lemma quiet_q_result:
  "tasks w t = Some (Running (Q_AwaitResult t0 sql)) \<Longrightarrow> quiet t w (q_result t t0 sql oc w)"
  by (auto simp: quiet_def added_def q_result_def basic_defs split: outcome.splits payload.splits)

lemma quiet_r_after_init:
  "tasks w t = Some (Running (R_AwaitInit p n u)) \<Longrightarrow> quiet t w (r_after_init t p n u w)"
  by (auto simp: quiet_def added_def r_after_init_def basic_defs
      split: settled.splits option.splits)

lemma quiet_r_registered:
  "tasks w t = Some (Running (R_AwaitRegister n u)) \<Longrightarrow> quiet t w (r_registered t n u oc w)"
  by (auto simp: quiet_def added_def r_registered_def basic_defs
      split: outcome.splits payload.splits)

lemma quiet_resume:
  "tasks w t = Some (Running pcx) \<Longrightarrow> \<not> setup_pc pcx \<Longrightarrow> quiet t w (resume t pcx w)"
  by (cases pcx)
    (simp_all add: resume_def quiet_di_got_module quiet_r_after_init quiet_refl)

lemma quiet_settle:
  "tasks w t = Some (Running pcx) \<Longrightarrow> \<not> setup_pc pcx \<Longrightarrow> quiet t w (settle t pcx oc w)"
  by (cases pcx)
    (simp_all add: settle_def quiet_di_import quiet_di_cdn_import quiet_di_select_bundle
      quiet_di_fetch quiet_di_blob quiet_di_instantiate quiet_di_connect quiet_q_result
      quiet_r_registered quiet_refl)

lemma quiet_frame:
  assumes inv: "setup_inv qs w" and pc: "tasks w t = Some (Running pcx)"
    and idle: "\<not> setup_pc pcx" and q: "quiet t w w'"
  shows "setup_inv qs w'"
  using inv
proof (rule inv_frame)
  show "initQueries (mgr w') = initQueries (mgr w)
       \<and> initQueriesExecuted (mgr w') = initQueriesExecuted (mgr w)
       \<and> initQueriesPromise (mgr w') = initQueriesPromise (mgr w)
       \<and> (connection (mgr w) \<noteq> None \<longrightarrow> connection (mgr w') \<noteq> None)"
    using q by (simp add: quiet_def)
  show "\<exists>evs. trace w' = trace w @ evs \<and> setup_log evs = []
       \<and> list_all (\<lambda>e. \<not> is_user_submit e) evs"
    using q unfolding quiet_def by blast
  have ib: "idle_before (tasks w t)"
    using pc idle by (cases pcx) auto
  have ts: "tasks w' = (tasks w)(t := tasks w' t)" and ia: "idle_after (tasks w' t)"
    and n: "next_id w' = next_id w"
    using q by (simp_all add: quiet_def)
  have other: "tasks w' u = tasks w u" if "u \<noteq> t" for u
    using that ts by (metis fun_upd_other)
  have lt: "t < next_id w"
    using invD(2) [OF inv, of t] pc by (cases "t < next_id w") auto
  show "(\<forall>u. next_id w' \<le> u \<longrightarrow> tasks w' u = None)
       \<and> (\<forall>u. tasks w' u = tasks w u \<or> (idle_before (tasks w u) \<and> idle_after (tasks w' u)))"
  proof (intro conjI allI impI)
    fix u assume "next_id w' \<le> u"
    then have "u \<noteq> t" "next_id w \<le> u" using lt n by auto
    then show "tasks w' u = None" using other invD(2) [OF inv] by simp
  next
    fix u show "tasks w' u = tasks w u \<or> (idle_before (tasks w u) \<and> idle_after (tasks w' u))"
      using other ib ia by (cases "u = t") auto
  qed
qed

lemma inv_spawn_query:
  assumes inv: "setup_inv qs w"
  shows "setup_inv qs (call_query sql w)"
  using inv
proof (rule inv_frame)
  note F = invD(2) [OF inv]
  show "(\<forall>u. next_id (call_query sql w) \<le> u \<longrightarrow> tasks (call_query sql w) u = None)
       \<and> (\<forall>u. tasks (call_query sql w) u = tasks w u
             \<or> (idle_before (tasks w u) \<and> idle_after (tasks (call_query sql w) u)))"
    using F [of "next_id w"] F [of "Suc (next_id w)"] F
    by (auto simp: call_query_def initialize_def doInitialize_def loadDuckDBModule_def fresh_def basic_defs
        split: option.splits)
  show "\<exists>evs. trace (call_query sql w) = trace w @ evs \<and> setup_log evs = []
       \<and> list_all (\<lambda>e. \<not> is_user_submit e) evs"
    by (auto simp: call_query_def initialize_def doInitialize_def loadDuckDBModule_def fresh_def basic_defs
        split: option.splits)
qed (auto simp: call_query_def initialize_def doInitialize_def loadDuckDBModule_def fresh_def basic_defs
        split: option.splits)

lemma inv_spawn_register:
  assumes inv: "setup_inv qs w"
  shows "setup_inv qs (call_registerFile n u w)"
  using inv
proof (rule inv_frame)
  note F = invD(2) [OF inv]
  show "(\<forall>v. next_id (call_registerFile n u w) \<le> v \<longrightarrow> tasks (call_registerFile n u w) v = None)
       \<and> (\<forall>v. tasks (call_registerFile n u w) v = tasks w v
             \<or> (idle_before (tasks w v) \<and> idle_after (tasks (call_registerFile n u w) v)))"
    using F [of "next_id w"] F [of "Suc (next_id w)"] F
    by (auto simp: call_registerFile_def initialize_def doInitialize_def loadDuckDBModule_def fresh_def basic_defs
        split: option.splits)
  show "\<exists>evs. trace (call_registerFile n u w) = trace w @ evs \<and> setup_log evs = []
       \<and> list_all (\<lambda>e. \<not> is_user_submit e) evs"
    by (auto simp: call_registerFile_def initialize_def doInitialize_def loadDuckDBModule_def fresh_def basic_defs
        split: option.splits)
qed (auto simp: call_registerFile_def initialize_def doInitialize_def loadDuckDBModule_def fresh_def basic_defs
        split: option.splits)

lemma inv_configure:
  assumes inv: "setup_inv qs w"
  shows "setup_inv qs (configure p w)"
  using inv
proof (rule inv_frame)
qed (use invD(2) [OF inv] in \<open>auto simp: configure_def basic_defs\<close>)

lemma inv_tick:
  assumes inv: "setup_inv qs w"
  shows "setup_inv qs (w\<lparr>now := now w + d\<rparr>)"
  using inv
proof (rule inv_frame)
qed (use invD(2) [OF inv] in auto)

lemma grows_refl: "grows w w"
  by (simp add: grows_def added_def)

lemma quiet_grows: "quiet t w w' \<Longrightarrow> grows w w'"
  by (simp add: quiet_def grows_def)

lemma grows_resume: "grows w (resume t pcx w)"
proof (cases "setup_pc pcx")
  case True
  then show ?thesis
    by (cases pcx rule: setup_pc.cases)
      (auto simp: grows_def added_def resume_def q_after_init_def q_after_setup_def
        executeInitQueries_def setup_loop_def setup_catch_def fresh_def basic_defs Let_def
        split: settled.splits option.splits)
next
  case False
  show ?thesis
  proof (cases pcx)
    case (DI_GotModule m)
    then show ?thesis using quiet_di_got_module quiet_grows by (simp add: resume_def) blast
  next
    case (R_AwaitInit p n u)
    then show ?thesis
      by (auto simp: grows_def added_def resume_def r_after_init_def basic_defs
        split: settled.splits option.splits)
  qed (use False in \<open>simp_all add: resume_def grows_refl\<close>)
qed

lemma grows_settle: "grows w (settle t pcx oc w)"
  by (cases pcx)
    (auto simp: grows_def added_def settle_def di_import_def di_cdn_import_def
      di_select_bundle_def di_fetch_def di_blob_def di_instantiate_def di_connect_def
      sr_await_def setup_loop_def setup_catch_def q_result_def r_registered_def
      c_conn_closed_def c_terminated_def close_db_def close_reset_def basic_defs Let_def
      split: outcome.splits payload.splits option.splits)

lemma grows_step: "grows w (step a w)"
proof (cases a)
  case (Resume t)
  then show ?thesis
    using grows_resume grows_refl by (auto simp: step_def split: option.splits tstate.splits)
next
  case (Settle t oc)
  then show ?thesis
    using grows_settle grows_refl by (auto simp: step_def split: option.splits tstate.splits)
qed (auto simp: grows_def added_def step_def configure_def configureInitQueries_def
      call_query_def call_registerFile_def call_close_def close_db_def close_reset_def
      initialize_def doInitialize_def loadDuckDBModule_def fresh_def basic_defs split: option.splits)

lemma inv_resume:
  assumes inv: "setup_inv qs w" and pc: "tasks w t = Some (Running pcx)"
  shows "setup_inv qs (resume t pcx w)"
proof (cases "setup_pc pcx")
  case False
  then show ?thesis using quiet_frame [OF inv pc False] quiet_resume [OF pc False] by blast
next
  case True
  note D = invD [OF inv]
  from True show ?thesis
  proof (cases pcx rule: setup_pc.cases)
    case (1 i q)
    then show ?thesis using inv by (simp add: resume_def)
  next
    case (2 p sql)
    then show ?thesis using inv_q_after_init [OF inv, of t p sql] pc by (simp add: resume_def)
  next
    case (3 p sql)
    then show ?thesis using inv_q_after_setup [OF inv, of t p sql] pc by (simp add: resume_def)
  qed (use pc D(10) [of t] D(11) [of t] in auto)
qed

lemma inv_settle:
  assumes inv: "setup_inv qs w" and pc: "tasks w t = Some (Running pcx)"
    and ok: "no_reject_ev (trace (settle t pcx oc w))"
  shows "setup_inv qs (settle t pcx oc w)"
proof (cases "setup_pc pcx")
  case False
  then show ?thesis using quiet_frame [OF inv pc False] quiet_settle [OF pc False] by blast
next
  case True
  note D = invD [OF inv]
  from True show ?thesis
  proof (cases pcx rule: setup_pc.cases)
    case (1 i q)
    then have "settle t pcx oc w = sr_await t i q oc w"
      by (simp add: settle_def)
    then show ?thesis
      using inv_sr_await [OF inv, of t i q oc] ok pc 1 by simp
  next
    case (2 p sql)
    then show ?thesis using inv by (simp add: settle_def)
  next
    case (3 p sql)
    then show ?thesis using inv by (simp add: settle_def)
  qed (use pc D(10) [of t] D(11) [of t] in auto)
qed

lemma inv_step:
  assumes inv: "setup_inv qs w" and life: "lifetime_action a"
    and ok: "no_reject_ev (trace (step a w))"
  shows "setup_inv qs (step a w)"
proof (cases a)
  case (CallConfigure p)
  then show ?thesis using inv_configure [OF inv] by (simp add: step_def)
next
  case (CallQuery sql)
  then show ?thesis using inv_spawn_query [OF inv] by (simp add: step_def)
next
  case (CallRegisterFile n u)
  then show ?thesis using inv_spawn_register [OF inv] by (simp add: step_def)
next
  case (Resume t)
  then show ?thesis
    using inv inv_resume [OF inv, of t]
    by (auto simp: step_def split: option.splits tstate.splits)
next
  case (Settle t oc)
  then show ?thesis
    using inv inv_settle [OF inv, of t _ oc] ok
    by (auto simp: step_def split: option.splits tstate.splits)
next
  case (Tick d)
  then show ?thesis using inv inv_tick [OF inv] by (simp add: step_def)
qed (use life in auto)

lemma no_reject_step: "no_reject_ev (trace (step a w)) \<Longrightarrow> no_reject_ev (trace w)"
proof -
  assume h: "no_reject_ev (trace (step a w))"
  have "trace (step a w) = trace w @ added w (step a w)"
    using grows_step [of w a] by (simp add: grows_def)
  then have "set (setup_log (trace w)) \<subseteq> set (setup_log (trace (step a w)))"
    by (metis setup_log_append set_append sup_ge1)
  then show ?thesis using h unfolding no_reject_ev_def by blast
qed

lemma run_snoc: "run (as @ [a]) w = step a (run as w)"
  by (induction as arbitrary: w) auto

lemma inv_run:
  "setup_inv qs w \<Longrightarrow> list_all lifetime_action as \<Longrightarrow> no_reject_ev (trace (run as w))
     \<Longrightarrow> setup_inv qs (run as w)"
proof (induction as rule: rev_induct)
  case Nil
  then show ?case by simp
next
  case (snoc a as)
  have "no_reject_ev (trace (run as w))"
    using snoc.prems(3) no_reject_step by (simp add: run_snoc)
  then have "setup_inv qs (run as w)"
    using snoc by simp
  then show ?case
    using snoc.prems inv_step by (simp add: run_snoc)
qed

lemma inv_init: "setup_inv qs (step (CallConfigureInitQueries qs) (init_world win))"
  by (rule invI)
    (simp_all add: step_def configureInitQueries_def init_world_def new_manager_def upd_def
      user_after_setup_def waiting_ok_def)

lemma script_prefix: "i < length qs \<Longrightarrow> prefix (script (take i qs) @ [Submit (qs ! i)]) (script qs)"
proof -
  assume "i < length qs"
  then have "qs = take i qs @ qs ! i # drop (Suc i) qs"
    by (simp add: id_take_nth_drop)
  then have "script qs = script (take i qs) @ script (qs ! i # drop (Suc i) qs)"
    by (metis script_append)
  then show ?thesis by (simp add: prefix_def)
qed

text \<open>
  What holds of the setup statements in every lifetime, whether or not a setup run gets to
  submit them. The setup statements \<open>qs\<close> are configured on a fresh manager, and then any calls of
  query, registerFile and configure are made and interleaved in any way with the
  continuations of all tasks and with any answers of the environment (a connection lifetime:
  no close, no reconfiguration of the statements), the engine rejecting no setup statement.
  Then in the state reached:
  the setup traffic on the connection is a prefix of one complete run (each statement of
  \<open>qs\<close> in order, each accepted before the next is submitted, none twice);
  every user statement was submitted when the connection had received exactly the complete
  run; once the flag is set the complete run has been received; and at most one setup run
  is in flight.
\<close>

theorem setup_at_most_once_in_order:
  assumes "list_all lifetime_action as"
    and "w = run as (step (CallConfigureInitQueries qs) (init_world win))"
    and "no_reject_ev (trace w)"
  shows "prefix (setup_log (trace w)) (script qs)
    \<and> user_after_setup qs (trace w)
    \<and> (initQueriesExecuted (mgr w) \<longrightarrow> setup_log (trace w) = script qs)
    \<and> (\<forall>r r' i i' q q'. tasks w r = Some (Running (SR_Await i q))
          \<and> tasks w r' = Some (Running (SR_Await i' q')) \<longrightarrow> r = r')"
proof -
  have inv: "setup_inv qs w"
    using assms inv_run [OF inv_init] by simp
  note D = invD [OF inv]
  have pre: "prefix (setup_log (trace w)) (script qs)"
  proof (cases "initQueriesExecuted (mgr w)")
    case True
    then show ?thesis using D(3) by simp
  next
    case nexec: False
    show ?thesis
    proof (cases "initQueriesPromise (mgr w)")
      case None
      then show ?thesis using D(4) nexec by simp
    next
      case (Some p)
      then have "waiting_ok w p" using D(7) by simp
      then consider i q where "tasks w p = Some (Running (SR_Await i q))"
        | e where "tasks w p = Some (Rejected e)"
        using nexec by (auto simp: waiting_ok_def)
      then show ?thesis
      proof cases
        case 1
        then show ?thesis using D(6) [OF 1] script_prefix by simp
      next
        case 2
        then show ?thesis using D(5) nexec Some by simp
      qed
    qed
  qed
  have uniq: "r = r'" if "tasks w r = Some (Running (SR_Await i q))"
    "tasks w r' = Some (Running (SR_Await i' q'))" for r r' i i' q q'
    using D(6) [OF that(1)] D(6) [OF that(2)] by simp
  show ?thesis
    using pre D(12) D(3) uniq by blast
qed

theorem setup_at_most_once_in_order_witness:
  "list_all lifetime_action two_queries_with_setup
   \<and> no_reject_ev (trace (run two_queries_with_setup (configured_world [''A'', ''B'', ''C''])))
   \<and> submitted (trace (run two_queries_with_setup (configured_world [''A'', ''B'', ''C''])))
       = [(Setup, ''A''), (Setup, ''B''), (Setup, ''C''), (User, ''SELECT 1''), (User, ''SELECT 2'')]
   \<and> setup_log (trace (run two_queries_with_setup (configured_world [''A'', ''B'', ''C''])))
       = script [''A'', ''B'', ''C'']
   \<and> initQueriesExecuted (mgr (run two_queries_with_setup (configured_world [''A'', ''B'', ''C''])))
   \<and> prefix (setup_log (trace (run two_queries_with_setup (configured_world [''A'', ''B'', ''C'']))))
        (script [''A'', ''B'', ''C''])
   \<and> user_after_setup [''A'', ''B'', ''C'']
        (trace (run two_queries_with_setup (configured_world [''A'', ''B'', ''C''])))"
proof -
  let ?w = "run two_queries_with_setup (configured_world [''A'', ''B'', ''C''])"
  have tr: "trace ?w =
      [EvImport package_name, EvSelectBundle 7, EvFetch (mainWorker bundle0), EvBlob,
       EvCreateObjectURL, EvNewWorker, EvNewDB 1 7, EvInstantiate 1 bundle0, EvConnect 1,
       EvRevokeObjectURL,
       EvConnQuery 5 Setup ''A'', EvQueryResult Setup ''A'' True,
       EvConnQuery 5 Setup ''B'', EvQueryResult Setup ''B'' True,
       EvConnQuery 5 Setup ''C'', EvQueryResult Setup ''C'' True,
       EvConnQuery 5 User ''SELECT 1'', EvConnQuery 5 User ''SELECT 2'']"
    by (simp add: two_queries_with_setup_def configured_world_def input_defs model_defs)
  have ex: "initQueriesExecuted (mgr ?w)"
    by (simp add: two_queries_with_setup_def configured_world_def input_defs model_defs)
  have h1: "list_all lifetime_action two_queries_with_setup"
    by (simp add: two_queries_with_setup_def input_defs)
  have h2: "?w = run two_queries_with_setup
      (step (CallConfigureInitQueries [''A'', ''B'', ''C'']) (init_world (Some None)))"
    by (simp add: configured_world_def)
  have h3: "no_reject_ev (trace ?w)"
    by (simp add: tr no_reject_ev_def)
  have sub: "submitted (trace ?w)
      = [(Setup, ''A''), (Setup, ''B''), (Setup, ''C''), (User, ''SELECT 1''), (User, ''SELECT 2'')]"
    by (simp add: tr)
  have "prefix (setup_log (trace ?w)) (script [''A'', ''B'', ''C''])
      \<and> user_after_setup [''A'', ''B'', ''C''] (trace ?w)
      \<and> (initQueriesExecuted (mgr ?w) \<longrightarrow> setup_log (trace ?w) = script [''A'', ''B'', ''C''])"
    using setup_at_most_once_in_order [OF h1 h2 h3] by blast
  then show ?thesis
    using h1 h3 sub ex by blast
qed

section \<open>A setup run started without a connection\<close>

text \<open>
  Once the stored setup promise is rejected with the flag unset, it stays so for the rest of
  the lifetime: executeInitQueries hands the stored promise to every caller, and only a
  setup run or close would clear it.
\<close>

lemma stuck_norun:
  assumes inv: "setup_inv qs w" and st: "stuck w"
  shows "tasks w r \<noteq> Some (Running (SR_Await i q))"
proof
  assume "tasks w r = Some (Running (SR_Await i q))"
  then have "initQueriesPromise (mgr w) = Some r"
    using invD(6) [OF inv] by blast
  then show False
    using st \<open>tasks w r = Some (Running (SR_Await i q))\<close> by (auto simp: stuck_def)
qed

text \<open>A step of a running task that leaves the setup flag and promise as they are.\<close>

lemma stuck_retask:
  assumes st: "stuck w" and pc: "tasks w t = Some (Running pcx)"
    and m: "initQueriesExecuted (mgr w') = initQueriesExecuted (mgr w)"
      "initQueriesPromise (mgr w') = initQueriesPromise (mgr w)"
    and ts: "tasks w' = (tasks w)(t := X)"
  shows "stuck w'"
proof -
  from st obtain p e where p: "initQueriesPromise (mgr w) = Some p" "tasks w p = Some (Rejected e)"
    and ne: "\<not> initQueriesExecuted (mgr w)"
    by (auto simp: stuck_def)
  have "p \<noteq> t" using p(2) pc by auto
  then have "tasks w' p = Some (Rejected e)" using p(2) by (simp add: ts)
  then show ?thesis using p(1) ne m by (auto simp: stuck_def)
qed

lemma stuck_quiet:
  assumes st: "stuck w" and pc: "tasks w t = Some (Running pcx)" and q: "quiet t w w'"
  shows "stuck w'"
  using st pc
proof (rule stuck_retask)
  show "tasks w' = (tasks w)(t := tasks w' t)" using q by (simp add: quiet_def)
qed (use q in \<open>simp_all add: quiet_def\<close>)

lemma stuck_q_after_init:
  assumes st: "stuck w" and pc: "tasks w t = Some (Running (Q_AwaitInit p sql))"
  shows "stuck (q_after_init t p sql w)"
proof -
  from st obtain r e where r: "initQueriesPromise (mgr w) = Some r" "tasks w r = Some (Rejected e)"
    and ne: "\<not> initQueriesExecuted (mgr w)"
    by (auto simp: stuck_def)
  have ex: "executeInitQueries w = (Some r, w)"
    using r ne by (simp add: executeInitQueries_def)
  show ?thesis
  proof (cases "awaited w p")
    case Pending
    then show ?thesis using st by (simp add: q_after_init_def)
  next
    case Resolved
    have "stuck (set_task t (Running (Q_AwaitSetup (Some r) sql)) w)"
      using st pc by (rule stuck_retask) (simp_all add: set_task_def)
    then show ?thesis using Resolved ex by (simp add: q_after_init_def)
  next
    case (Thrown x)
    have "stuck (set_task t (Rejected x) w)"
      using st pc by (rule stuck_retask) (simp_all add: set_task_def)
    then show ?thesis using Thrown by (simp add: q_after_init_def)
  qed
qed

lemma stuck_q_after_setup:
  assumes st: "stuck w" and pc: "tasks w t = Some (Running (Q_AwaitSetup p sql))"
  shows "stuck (q_after_setup t p sql w)"
proof (cases "awaited w p")
  case Pending
  then show ?thesis using st by (simp add: q_after_setup_def)
next
  case (Thrown x)
  have "stuck (set_task t (Rejected x) w)"
    using st pc by (rule stuck_retask) (simp_all add: set_task_def)
  then show ?thesis using Thrown by (simp add: q_after_setup_def)
next
  case Resolved
  show ?thesis
  proof (cases "connection (mgr w)")
    case None
    have "stuck (set_task t (Rejected ''DuckDB connection not available'') w)"
      using st pc by (rule stuck_retask) (simp_all add: set_task_def)
    then show ?thesis using Resolved None by (simp add: q_after_setup_def)
  next
    case (Some c)
    have "stuck (set_task t (Running (Q_AwaitResult (now w) sql)) (emit (EvConnQuery c User sql) w))"
      using st pc by (rule stuck_retask) (simp_all add: set_task_def emit_def)
    then show ?thesis using Resolved Some by (simp add: q_after_setup_def)
  qed
qed

lemma stuck_resume:
  assumes st: "stuck w" and pc: "tasks w t = Some (Running pcx)"
  shows "stuck (resume t pcx w)"
proof (cases "setup_pc pcx")
  case False
  then show ?thesis using stuck_quiet [OF st pc] quiet_resume [OF pc False] by blast
next
  case True
  then show ?thesis
  proof (cases pcx rule: setup_pc.cases)
    case (2 p sql)
    then show ?thesis using stuck_q_after_init [OF st, of t p sql] pc by (simp add: resume_def)
  next
    case (3 p sql)
    then show ?thesis using stuck_q_after_setup [OF st, of t p sql] pc by (simp add: resume_def)
  qed (use st in \<open>simp_all add: resume_def\<close>)
qed

lemma stuck_settle:
  assumes inv: "setup_inv qs w" and st: "stuck w" and pc: "tasks w t = Some (Running pcx)"
  shows "stuck (settle t pcx oc w)"
proof (cases "setup_pc pcx")
  case False
  then show ?thesis using stuck_quiet [OF st pc] quiet_settle [OF pc False] by blast
next
  case True
  then show ?thesis
  proof (cases pcx rule: setup_pc.cases)
    case (1 i q)
    then show ?thesis using stuck_norun [OF inv st, of t i q] pc by simp
  next
    case 4
    then show ?thesis using invD(10) [OF inv, of t] pc by simp
  next
    case 5
    then show ?thesis using invD(11) [OF inv, of t] pc by simp
  qed (use st in \<open>simp_all add: settle_def\<close>)
qed

lemma stuck_spawn:
  assumes inv: "setup_inv qs w" and st: "stuck w"
  shows "stuck (call_query sql w)" and "stuck (call_registerFile n u w)"
proof -
  note F = invD(2) [OF inv]
  from st obtain p e where p: "initQueriesPromise (mgr w) = Some p" "tasks w p = Some (Rejected e)"
    and ne: "\<not> initQueriesExecuted (mgr w)"
    by (auto simp: stuck_def)
  have lt: "p \<noteq> next_id w" "p \<noteq> Suc (next_id w)"
    using F [of "next_id w"] F [of "Suc (next_id w)"] p(2) by auto
  show "stuck (call_query sql w)"
    using p ne lt
    by (auto simp: stuck_def call_query_def initialize_def doInitialize_def loadDuckDBModule_def
        fresh_def basic_defs split: option.splits)
  show "stuck (call_registerFile n u w)"
    using p ne lt
    by (auto simp: stuck_def call_registerFile_def initialize_def doInitialize_def
        loadDuckDBModule_def fresh_def basic_defs split: option.splits)
qed

lemma stuck_step:
  assumes inv: "setup_inv qs w" and st: "stuck w" and life: "lifetime_action a"
  shows "stuck (step a w)"
proof (cases a)
  case (CallConfigure p)
  then show ?thesis using st by (auto simp: step_def configure_def stuck_def basic_defs)
next
  case (CallQuery sql)
  then show ?thesis using stuck_spawn(1) [OF inv st] by (simp add: step_def)
next
  case (CallRegisterFile n u)
  then show ?thesis using stuck_spawn(2) [OF inv st] by (simp add: step_def)
next
  case (Resume t)
  then show ?thesis
    using st stuck_resume [OF st, of t] by (auto simp: step_def split: option.splits tstate.splits)
next
  case (Settle t oc)
  then show ?thesis
    using st stuck_settle [OF inv st, of t] by (auto simp: step_def split: option.splits tstate.splits)
next
  case (Tick d)
  then show ?thesis using st by (auto simp: step_def stuck_def)
qed (use life in auto)

lemma inv_settle_idle:
  assumes inv: "setup_inv qs w" and pc: "tasks w t = Some (Running pcx)"
    and idle: "\<forall>i q. pcx \<noteq> SR_Await i q"
  shows "setup_inv qs (settle t pcx oc w)"
proof (cases "setup_pc pcx")
  case False
  then show ?thesis using quiet_frame [OF inv pc False] quiet_settle [OF pc False] by blast
next
  case True
  note D = invD [OF inv]
  from True show ?thesis
  proof (cases pcx rule: setup_pc.cases)
    case (1 i q)
    then show ?thesis using idle by simp
  next
    case (2 p sql)
    then show ?thesis using inv by (simp add: settle_def)
  next
    case (3 p sql)
    then show ?thesis using inv by (simp add: settle_def)
  qed (use pc D(10) [of t] D(11) [of t] in auto)
qed

lemma inv_step_stuck:
  assumes inv: "setup_inv qs w" and st: "stuck w" and life: "lifetime_action a"
  shows "setup_inv qs (step a w)"
proof (cases a)
  case (CallConfigure p)
  then show ?thesis using inv_configure [OF inv] by (simp add: step_def)
next
  case (CallQuery sql)
  then show ?thesis using inv_spawn_query [OF inv] by (simp add: step_def)
next
  case (CallRegisterFile n u)
  then show ?thesis using inv_spawn_register [OF inv] by (simp add: step_def)
next
  case (Resume t)
  then show ?thesis
    using inv inv_resume [OF inv, of t]
    by (auto simp: step_def split: option.splits tstate.splits)
next
  case (Settle t oc)
  show ?thesis
  proof (cases "tasks w t")
    case None
    then show ?thesis using inv Settle by (simp add: step_def)
  next
    case (Some s)
    then show ?thesis
    proof (cases s)
      case (Running pcx)
      have "\<forall>i q. pcx \<noteq> SR_Await i q"
        using stuck_norun [OF inv st, of t] Some Running by auto
      then show ?thesis
        using inv_settle_idle [OF inv, of t pcx oc] Some Running Settle by (simp add: step_def)
    qed (use inv Settle Some in \<open>simp_all add: step_def\<close>)
  qed
next
  case (Tick d)
  then show ?thesis using inv inv_tick [OF inv] by (simp add: step_def)
qed (use life in auto)

lemma stuck_run:
  "setup_inv qs w \<Longrightarrow> stuck w \<Longrightarrow> list_all lifetime_action as
     \<Longrightarrow> setup_inv qs (run as w) \<and> stuck (run as w)"
proof (induction as arbitrary: w)
  case Nil
  then show ?case by simp
next
  case (Cons a as)
  have "setup_inv qs (step a w)" "stuck (step a w)"
    using Cons.prems inv_step_stuck stuck_step by auto
  then show ?case using Cons.IH Cons.prems(3) by simp
qed

lemma submitted_none:
  assumes lg: "setup_log tr = []" and us: "user_after_setup qs tr" and ne: "qs \<noteq> []"
  shows "submitted tr = []"
proof -
  have nouser: "\<not> is_user_submit (tr ! k)" if "k < length tr" for k
  proof
    assume "is_user_submit (tr ! k)"
    then have "setup_log (take k tr) = script qs"
      using us that by (simp add: user_after_setup_def)
    moreover have "setup_log tr = setup_log (take k tr) @ setup_log (drop k tr)"
      by (metis append_take_drop_id setup_log_append)
    ultimately have "script qs = []" using lg by simp
    then show False using ne by (cases qs) auto
  qed
  have all: "\<forall>e \<in> set tr. \<not> is_user_submit e"
    using nouser by (auto simp: in_set_conv_nth)
  have "(\<forall>e \<in> set es. \<not> is_user_submit e) \<Longrightarrow> setup_log es = [] \<Longrightarrow> submitted es = []" for es
    by (induction es rule: setup_log.induct) auto
  then show ?thesis
    using all lg by blast
qed

lemma stuck_silent:
  assumes inv: "setup_inv qs w" and st: "stuck w" and ne: "qs \<noteq> []"
  shows "submitted (trace w) = []"
proof -
  from st obtain p e where "initQueriesPromise (mgr w) = Some p" "tasks w p = Some (Rejected e)"
    "\<not> initQueriesExecuted (mgr w)"
    by (auto simp: stuck_def)
  then have "setup_log (trace w) = []"
    using invD(5) [OF inv] by blast
  then show ?thesis
    using invD(12) [OF inv] ne by (rule submitted_none)
qed

text \<open>
  C3 (the code departs from the claim). Setup statements \<open>[A, B, C]\<close> are configured and a
  query is called. While its doInitialize awaits the instantiation of the engine instance
  that it has already stored in \<open>this.db\<close>, a second query is called and continues:
  \<open>initialize\<close> returns at once, executeInitQueries starts the setup run without a
  connection, the run throws before its first \<open>await\<close>, and line 192 stores its rejected
  promise (after the \<open>catch\<close>, line 208, has cleared the field). Then the connection is
  built and the first query continues. In the state reached the connection is open, the flag
  is unset, the stored setup promise is the rejected one, and both queries are rejected with
  its error, as is a third query called now. Whatever is called, continued and answered from
  then on in this lifetime (schedule \<open>as\<close>), the connection never receives a statement,
  neither \<open>A\<close>, \<open>B\<close>, \<open>C\<close> nor a user statement, and the flag is never set.
\<close>

theorem setup_never_received_after_early_call:
  assumes "list_all lifetime_action as"
  shows "connection (mgr (run (early_second_call A B C sql1 sql2) fresh_world)) = Some 5
    \<and> tasks (run (early_second_call A B C sql1 sql2) fresh_world) 1 = Some (Fulfilled RVoid)
    \<and> initQueries (mgr (run (early_second_call A B C sql1 sql2) fresh_world)) = [A, B, C]
    \<and> initQueriesPromise (mgr (run (early_second_call A B C sql1 sql2) fresh_world)) = Some 3
    \<and> tasks (run (early_second_call A B C sql1 sql2) fresh_world) 3
        = Some (Rejected (''Initialization query failed: '' @ null_property ''query''))
    \<and> tasks (run (early_second_call A B C sql1 sql2) fresh_world) 2
        = Some (Rejected (''Initialization query failed: '' @ null_property ''query''))
    \<and> tasks (run (early_second_call A B C sql1 sql2) fresh_world) 0
        = Some (Rejected (''Initialization query failed: '' @ null_property ''query''))
    \<and> tasks (run (early_second_call A B C sql1 sql2 @ [CallQuery sql3, Resume 4, Resume 4])
          fresh_world) 4
        = Some (Rejected (''Initialization query failed: '' @ null_property ''query''))
    \<and> submitted (trace (run (early_second_call A B C sql1 sql2 @ as) fresh_world)) = []
    \<and> setup_log (trace (run (early_second_call A B C sql1 sql2 @ as) fresh_world)) = []
    \<and> \<not> initQueriesExecuted (mgr (run (early_second_call A B C sql1 sql2 @ as) fresh_world))"
proof -
  let ?e = "early_second_call A B C sql1 sql2"
  let ?w = "run ?e fresh_world"
  have ev: "connection (mgr ?w) = Some 5"
    "tasks ?w 1 = Some (Fulfilled RVoid)"
    "initQueries (mgr ?w) = [A, B, C]"
    "initQueriesPromise (mgr ?w) = Some 3"
    "tasks ?w 3 = Some (Rejected (''Initialization query failed: '' @ null_property ''query''))"
    "tasks ?w 2 = Some (Rejected (''Initialization query failed: '' @ null_property ''query''))"
    "tasks ?w 0 = Some (Rejected (''Initialization query failed: '' @ null_property ''query''))"
    "\<not> initQueriesExecuted (mgr ?w)"
    "setup_log (trace ?w) = []"
    by (simp_all add: early_second_call_def input_defs model_defs)
  have third: "tasks (run (?e @ [CallQuery sql3, Resume 4, Resume 4]) fresh_world) 4
        = Some (Rejected (''Initialization query failed: '' @ null_property ''query''))"
    by (simp add: early_second_call_def input_defs model_defs)
  have tl: "?w = run (tl ?e) (step (CallConfigureInitQueries [A, B, C]) (init_world (Some None)))"
    by (simp add: early_second_call_def fresh_world_def)
  have life: "list_all lifetime_action (tl ?e)"
    by (simp add: early_second_call_def input_defs)
  have "no_reject_ev (trace ?w)"
    using ev(9) by (simp add: no_reject_ev_def)
  then have inv: "setup_inv [A, B, C] ?w"
    using inv_run [OF inv_init life, of "[A, B, C]" "Some None"] tl by simp
  have st: "stuck ?w"
    using ev by (simp add: stuck_def)
  have fin: "setup_inv [A, B, C] (run as ?w)" "stuck (run as ?w)"
    using stuck_run [OF inv st assms] by simp_all
  have s1: "submitted (trace (run as ?w)) = []"
    using fin by (rule stuck_silent) simp
  have s2: "setup_log (trace (run as ?w)) = []"
    using fin invD(5) [OF fin(1)] by (auto simp: stuck_def)
  have s3: "\<not> initQueriesExecuted (mgr (run as ?w))"
    using fin(2) by (simp add: stuck_def)
  show ?thesis
    using ev third s1 s2 s3 by (simp add: run_append)
qed

text \<open>Two more queries are called, one after the other, and continue: both are rejected.\<close>

theorem setup_never_received_after_early_call_witness:
  "list_all lifetime_action
      [CallQuery ''SELECT 3'', Resume 4, Resume 4, CallQuery ''SELECT 4'', Resume 5, Resume 5, Tick 1]
   \<and> connection (mgr (run (early_second_call ''INSTALL spatial'' ''LOAD spatial'' ''SET threads = 2''
          ''SELECT 1'' ''SELECT 2'') fresh_world)) = Some 5
   \<and> submitted (trace (run (early_second_call ''INSTALL spatial'' ''LOAD spatial'' ''SET threads = 2''
          ''SELECT 1'' ''SELECT 2''
        @ [CallQuery ''SELECT 3'', Resume 4, Resume 4, CallQuery ''SELECT 4'', Resume 5, Resume 5, Tick 1])
        fresh_world)) = []
   \<and> tasks (run (early_second_call ''INSTALL spatial'' ''LOAD spatial'' ''SET threads = 2''
          ''SELECT 1'' ''SELECT 2''
        @ [CallQuery ''SELECT 3'', Resume 4, Resume 4, CallQuery ''SELECT 4'', Resume 5, Resume 5, Tick 1])
        fresh_world) 5
       = Some (Rejected (''Initialization query failed: '' @ null_property ''query''))"
proof -
  let ?as = "[CallQuery ''SELECT 3'', Resume 4, Resume 4, CallQuery ''SELECT 4'', Resume 5, Resume 5, Tick 1]"
  have h: "list_all lifetime_action ?as"
    by simp
  have t5: "tasks (run (early_second_call ''INSTALL spatial'' ''LOAD spatial'' ''SET threads = 2''
          ''SELECT 1'' ''SELECT 2'' @ ?as) fresh_world) 5
       = Some (Rejected (''Initialization query failed: '' @ null_property ''query''))"
    by (simp add: early_second_call_def input_defs model_defs)
  show ?thesis
    using setup_never_received_after_early_call [OF h, of "''INSTALL spatial''" "''LOAD spatial''"
        "''SET threads = 2''" "''SELECT 1''" "''SELECT 2''"] h t5
    by blast
qed


section \<open>The configured cdn\<close>

lemma hide_idem: "hide_cdn (hide_cdn w) = hide_cdn w"
  by (simp add: hide_cdn_def hide_m_def)

lemma hide_proj:
  "tasks (hide_cdn w) = tasks w" "trace (hide_cdn w) = trace w" "console (hide_cdn w) = console w"
  "window (hide_cdn w) = window w" "next_id (hide_cdn w) = next_id w" "now (hide_cdn w) = now w"
  "db (mgr (hide_cdn w)) = db (mgr w)" "connection (mgr (hide_cdn w)) = connection (mgr w)"
  "initPromise (mgr (hide_cdn w)) = initPromise (mgr w)"
  "registeredFiles (mgr (hide_cdn w)) = registeredFiles (mgr w)"
  "duckdbModule (mgr (hide_cdn w)) = duckdbModule (mgr w)"
  "initQueriesExecuted (mgr (hide_cdn w)) = initQueriesExecuted (mgr w)"
  "initQueriesPromise (mgr (hide_cdn w)) = initQueriesPromise (mgr w)"
  "initQueries (mgr (hide_cdn w)) = initQueries (mgr w)"
  "version (config (mgr (hide_cdn w))) = version (config (mgr w))"
  by (simp_all add: hide_cdn_def hide_m_def)

lemma hide_awaited: "awaited (hide_cdn w) p = awaited w p"
  by (simp add: awaited_def hide_proj split: option.splits)

lemma hide_upd:
  "(\<And>m. f (hide_m m) = hide_m (f m)) \<Longrightarrow> upd f (hide_cdn w) = hide_cdn (upd f w)"
  by (simp add: upd_def hide_cdn_def)

lemma hide_ops:
  "set_task t st (hide_cdn w) = hide_cdn (set_task t st w)"
  "emit e (hide_cdn w) = hide_cdn (emit e w)"
  "say l s (hide_cdn w) = hide_cdn (say l s w)"
  "(hide_cdn w)\<lparr>next_id := n\<rparr> = hide_cdn (w\<lparr>next_id := n\<rparr>)"
  "(hide_cdn w)\<lparr>window := x\<rparr> = hide_cdn (w\<lparr>window := x\<rparr>)"
  "(hide_cdn w)\<lparr>now := d\<rparr> = hide_cdn (w\<lparr>now := d\<rparr>)"
  by (simp_all add: hide_cdn_def set_task_def emit_def say_def)

lemma hide_fields:
  "hide_m (m\<lparr>db := a\<rparr>) = (hide_m m)\<lparr>db := a\<rparr>"
  "hide_m (m\<lparr>connection := b\<rparr>) = (hide_m m)\<lparr>connection := b\<rparr>"
  "hide_m (m\<lparr>initPromise := c\<rparr>) = (hide_m m)\<lparr>initPromise := c\<rparr>"
  "hide_m (m\<lparr>registeredFiles := d\<rparr>) = (hide_m m)\<lparr>registeredFiles := d\<rparr>"
  "hide_m (m\<lparr>duckdbModule := e\<rparr>) = (hide_m m)\<lparr>duckdbModule := e\<rparr>"
  "hide_m (m\<lparr>initQueriesExecuted := g\<rparr>) = (hide_m m)\<lparr>initQueriesExecuted := g\<rparr>"
  "hide_m (m\<lparr>initQueriesPromise := h\<rparr>) = (hide_m m)\<lparr>initQueriesPromise := h\<rparr>"
  "hide_m (m\<lparr>initQueries := i\<rparr>) = (hide_m m)\<lparr>initQueries := i\<rparr>"
  "registeredFiles (hide_m m) = registeredFiles m"
  by (simp_all add: hide_m_def)

lemmas hide_simps = hide_proj hide_awaited hide_ops hide_upd hide_fields

lemma hide_fresh: "fresh (hide_cdn w) = (next_id w, hide_cdn (snd (fresh w)))"
  by (simp add: fresh_def hide_simps)

lemma hide_di_catch: "di_catch t b e (hide_cdn w) = hide_cdn (di_catch t b e w)"
  by (simp add: di_catch_def hide_simps)

lemma hide_setup_loop: "setup_loop r i (hide_cdn w) = hide_cdn (setup_loop r i w)"
  by (simp add: setup_loop_def setup_catch_def Let_def hide_simps split: option.splits)

lemma hide_executeInitQueries:
  "executeInitQueries (hide_cdn w)
     = (fst (executeInitQueries w), hide_cdn (snd (executeInitQueries w)))"
  by (simp add: executeInitQueries_def hide_fresh hide_setup_loop hide_simps fresh_def
      split: option.splits)

lemma hide_doInitialize:
  "doInitialize (hide_cdn w) = (fst (doInitialize w), hide_cdn (snd (doInitialize w)))"
  by (simp add: doInitialize_def loadDuckDBModule_def hide_fresh hide_simps fresh_def split: option.splits)

lemma hide_initialize:
  "initialize (hide_cdn w) = (fst (initialize w), hide_cdn (snd (initialize w)))"
  by (simp add: initialize_def hide_doInitialize hide_simps case_prod_unfold split: option.splits)

lemma hide_resume: "resume t pcx (hide_cdn w) = hide_cdn (resume t pcx w)"
  by (cases pcx)
    (simp_all add: resume_def di_got_module_def q_after_init_def q_after_setup_def
      r_after_init_def hide_executeInitQueries hide_simps case_prod_unfold
      split: settled.splits option.splits)

lemma hide_settle: "settle t pcx oc (hide_cdn w) = hide_cdn (settle t pcx oc w)"
  by (cases pcx)
    (simp_all add: settle_def di_import_def di_cdn_import_def di_select_bundle_def di_fetch_def
      di_blob_def di_instantiate_def di_connect_def sr_await_def hide_setup_loop
      setup_catch_def hide_di_catch
      q_result_def r_registered_def c_conn_closed_def c_terminated_def close_db_def
      close_reset_def hide_simps split: outcome.splits payload.splits option.splits)

lemma hide_configure:
  "hide_cdn (configure p w) = hide_cdn (configure (p\<lparr>cdn_opt := None\<rparr>) (hide_cdn w))"
  by (simp add: configure_def merge_config_def hide_cdn_def hide_m_def say_def upd_def
      split: option.splits)

lemma hide_step: "hide_cdn (step a w) = hide_cdn (step (public_action a) (hide_cdn w))"
proof (cases a)
  case (CallConfigure p)
  then show ?thesis using hide_configure by (simp add: step_def)
next
  case (Resume t)
  then show ?thesis
    by (simp add: step_def hide_resume hide_proj hide_idem split: option.splits tstate.splits)
next
  case (Settle t oc)
  then show ?thesis
    by (simp add: step_def hide_settle hide_proj hide_idem split: option.splits tstate.splits)
qed (simp_all add: step_def configureInitQueries_def call_query_def call_registerFile_def
      call_close_def close_db_def close_reset_def hide_fresh hide_initialize hide_simps
      hide_idem case_prod_unfold fresh_def split: option.splits)

lemma hide_run:
  "map public_action s1 = map public_action s2 \<Longrightarrow> hide_cdn w1 = hide_cdn w2
     \<Longrightarrow> hide_cdn (run s1 w1) = hide_cdn (run s2 w2)"
proof (induction s1 arbitrary: s2 w1 w2)
  case Nil
  then show ?case by simp
next
  case (Cons a s1)
  then obtain b s2' where s2: "s2 = b # s2'" "public_action a = public_action b"
    "map public_action s1 = map public_action s2'"
    by (cases s2) auto
  have "hide_cdn (step a w1) = hide_cdn (step (public_action a) (hide_cdn w1))"
    by (rule hide_step)
  also have "\<dots> = hide_cdn (step (public_action b) (hide_cdn w2))"
    using s2(2) Cons.prems(2) by simp
  also have "\<dots> = hide_cdn (step b w2)"
    by (rule hide_step [symmetric])
  finally have "hide_cdn (run s1 (step a w1)) = hide_cdn (run s2' (step b w2))"
    using Cons.IH s2(3) by blast
  then show ?case by (simp add: s2(1))
qed

text \<open>
  C10. Two runs whose schedules agree except in the \<open>cdn\<close> argument of their configure
  calls, from states that agree except in the \<open>cdn\<close> field, end in states that agree except
  in the \<open>cdn\<close> field: they make the same calls to the module loader, the network and the
  engine, print the same console lines, settle the same promises with the same results and
  errors, and hold the same version. The URL of the remote module load is \<open>cdnUrl\<close> of the
  configured version: a fixed base with the version inserted.
\<close>

theorem cdn_has_no_influence:
  assumes "map public_action s1 = map public_action s2" and "hide_cdn w1 = hide_cdn w2"
  shows "hide_cdn (run s1 w1) = hide_cdn (run s2 w2)
    \<and> trace (run s1 w1) = trace (run s2 w2)
    \<and> console (run s1 w1) = console (run s2 w2)
    \<and> tasks (run s1 w1) = tasks (run s2 w2)
    \<and> window (run s1 w1) = window (run s2 w2)
    \<and> isInitialized (run s1 w1) = isInitialized (run s2 w2)
    \<and> version (config (mgr (run s1 w1))) = version (config (mgr (run s2 w2)))
    \<and> (\<forall>t e w. tasks w t = Some (Running DI_AwaitImport) \<longrightarrow>
          added w (step (Settle t (Fail e)) w) = [EvImport (cdnUrl (version (config (mgr w))))])"
proof -
  have h: "hide_cdn (run s1 w1) = hide_cdn (run s2 w2)"
    using assms by (rule hide_run)
  have p: "trace (run s1 w1) = trace (run s2 w2)" "console (run s1 w1) = console (run s2 w2)"
    "tasks (run s1 w1) = tasks (run s2 w2)" "window (run s1 w1) = window (run s2 w2)"
    "db (mgr (run s1 w1)) = db (mgr (run s2 w2))"
    "version (config (mgr (run s1 w1))) = version (config (mgr (run s2 w2)))"
    using h hide_proj by metis+
  have u: "added w (step (Settle t (Fail e)) w) = [EvImport (cdnUrl (version (config (mgr w))))]"
    if "tasks w t = Some (Running DI_AwaitImport)" for t e w
    using that by (simp add: added_def step_def settle_def di_import_def set_task_def emit_def say_def)
  show ?thesis
    using h p u by (simp add: isInitialized_def)
qed

theorem cdn_has_no_influence_witness:
  "map public_action (configure_and_load ''https://a.example/duckdb'')
     = map public_action (configure_and_load ''https://b.example/duckdb'')
   \<and> hide_cdn fresh_world = hide_cdn fresh_world
   \<and> cdn (config (mgr (run (configure_and_load ''https://a.example/duckdb'') fresh_world)))
       = Some ''https://a.example/duckdb''
   \<and> cdn (config (mgr (run (configure_and_load ''https://b.example/duckdb'') fresh_world)))
       = Some ''https://b.example/duckdb''
   \<and> trace (run (configure_and_load ''https://a.example/duckdb'') fresh_world)
       = trace (run (configure_and_load ''https://b.example/duckdb'') fresh_world)
   \<and> console (run (configure_and_load ''https://a.example/duckdb'') fresh_world)
       = console (run (configure_and_load ''https://b.example/duckdb'') fresh_world)
   \<and> trace (run (configure_and_load ''https://b.example/duckdb'') fresh_world)
       = [EvImport ''@duckdb/duckdb-wasm'',
          EvImport ''https://cdn.jsdelivr.net/npm/@duckdb/duckdb-wasm@1.30.0/+esm'']
   \<and> tasks (run (take 2 (configure_and_load ''https://a.example/duckdb'')) fresh_world) 1
       = Some (Running DI_AwaitImport)
   \<and> added (run (take 2 (configure_and_load ''https://a.example/duckdb'')) fresh_world)
        (step (Settle 1 (Fail ''Failed to resolve module specifier''))
          (run (take 2 (configure_and_load ''https://a.example/duckdb'')) fresh_world))
       = [EvImport ''https://cdn.jsdelivr.net/npm/@duckdb/duckdb-wasm@1.30.0/+esm'']"
proof -
  let ?a = "configure_and_load ''https://a.example/duckdb''"
  let ?b = "configure_and_load ''https://b.example/duckdb''"
  let ?v = "run (take 2 ?a) fresh_world"
  have h1: "map public_action ?a = map public_action ?b"
    by (simp add: configure_and_load_def)
  have h2: "hide_cdn fresh_world = hide_cdn fresh_world"
    by simp
  have ca: "cdn (config (mgr (run ?a fresh_world))) = Some ''https://a.example/duckdb''"
    and cb: "cdn (config (mgr (run ?b fresh_world))) = Some ''https://b.example/duckdb''"
    and tb: "trace (run ?b fresh_world)
       = [EvImport ''@duckdb/duckdb-wasm'',
          EvImport ''https://cdn.jsdelivr.net/npm/@duckdb/duckdb-wasm@1.30.0/+esm'']"
    and pc: "tasks ?v 1 = Some (Running DI_AwaitImport)"
    and vv: "version (config (mgr ?v)) = Some ''1.30.0''"
    by (simp_all add: configure_and_load_def input_defs model_defs merge_config_def
        package_name_def cdnUrl_def in_template_def)
  note main = cdn_has_no_influence [OF h1 h2]
  have t: "trace (run ?a fresh_world) = trace (run ?b fresh_world)"
    and c: "console (run ?a fresh_world) = console (run ?b fresh_world)"
    using main by blast+
  have "added ?v (step (Settle 1 (Fail ''Failed to resolve module specifier'')) ?v)
      = [EvImport (cdnUrl (version (config (mgr ?v))))]"
    using main pc by blast
  then have u: "added ?v (step (Settle 1 (Fail ''Failed to resolve module specifier'')) ?v)
      = [EvImport ''https://cdn.jsdelivr.net/npm/@duckdb/duckdb-wasm@1.30.0/+esm'']"
    by (simp add: vv cdnUrl_def in_template_def)
  show ?thesis
    using h1 h2 ca cb t c tb pc u by blast
qed

end
